theory Spec2Isabelle
  imports Main "HOL-Library.Sublist"
begin

section \<open>Voice Scheduling Agent: the dialogue machines of the repository\<close>

text \<open>
  The theory embeds three modules of the repository:
  \<^item> \<^verbatim>\<open>voice.py\<close>: the message history of the voice front-end;
  \<^item> \<^verbatim>\<open>agent_state.py\<close>: the email/phone/confirm machine with its validity
    predicates and its dictionary conversion;
  \<^item> \<^verbatim>\<open>chat.py\<close>: the text-chat machine, the extraction call and the commit stage.

  A Python \<^verbatim>\<open>str\<close> is a \<^typ>\<open>string\<close>, each character a code point below 256; the
  few characters of the source's literals that lie beyond are spelled as their UTF-8
  bytes. An \<^verbatim>\<open>Optional[str]\<close> is a \<^typ>\<open>string option\<close>.
\<close>

subsection \<open>Python strings\<close>

text \<open>\<^verbatim>\<open>str.isspace\<close> on one character, which is also what \<^verbatim>\<open>\s\<close> matches.\<close>

definition isspace :: "char \<Rightarrow> bool" where
  "isspace c = ((of_char c :: nat) \<in> {9, 10, 11, 12, 13, 28, 29, 30, 31, 32, 133, 160})"

text \<open>The class \<^verbatim>\<open>[0-9]\<close>, which below 256 is also \<^verbatim>\<open>\d\<close>.\<close>

definition isdigit :: "char \<Rightarrow> bool" where
  "isdigit c = (48 \<le> (of_char c :: nat) \<and> (of_char c :: nat) \<le> 57)"

definition all_digits :: "string \<Rightarrow> bool" where
  "all_digits s = list_all isdigit s"

definition lower_char :: "char \<Rightarrow> char" where
  "lower_char c =
     (let n = (of_char c :: nat) in
      if (65 \<le> n \<and> n \<le> 90) \<or> (192 \<le> n \<and> n \<le> 222 \<and> n \<noteq> 215)
      then char_of (n + 32) else c)"

definition lower :: "string \<Rightarrow> string" where
  "lower s = map lower_char s"

definition strip :: "string \<Rightarrow> string" where
  "strip s = rev (dropWhile isspace (rev (dropWhile isspace s)))"

text \<open>\<^verbatim>\<open>x or d\<close> for an optional string: \<^verbatim>\<open>None\<close> and the empty string are both falsy.\<close>

definition truthy :: "string option \<Rightarrow> bool" where
  "truthy x = (case x of None \<Rightarrow> False | Some s \<Rightarrow> s \<noteq> [])"

definition py_or :: "string option \<Rightarrow> string \<Rightarrow> string" where
  "py_or x d = (case x of None \<Rightarrow> d | Some s \<Rightarrow> if s = [] then d else s)"

text \<open>An optional string inside an f-string: \<^verbatim>\<open>None\<close> prints as the word None.\<close>

definition fmt :: "string option \<Rightarrow> string" where
  "fmt x = (case x of None \<Rightarrow> ''None'' | Some s \<Rightarrow> s)"

definition nl :: string where
  "nl = [CHR 0x0A]"

text \<open>U+2014, U+2019, U+2026, U+26A0 U+FE0F and U+2705 in UTF-8.\<close>

definition em_dash :: string where
  "em_dash = [CHR 0xE2, CHR 0x80, CHR 0x94]"

definition apostrophe :: string where
  "apostrophe = [CHR 0xE2, CHR 0x80, CHR 0x99]"

definition ellipsis :: string where
  "ellipsis = [CHR 0xE2, CHR 0x80, CHR 0xA6]"

definition warning_sign :: string where
  "warning_sign = [CHR 0xE2, CHR 0x9A, CHR 0xA0, CHR 0xEF, CHR 0xB8, CHR 0x8F]"

definition check_mark :: string where
  "check_mark = [CHR 0xE2, CHR 0x9C, CHR 0x85]"

subsection \<open>Regular expressions\<close>

text \<open>
  The patterns of the repository use character classes, concatenation, \<^verbatim>\<open>?\<close>,
  \<^verbatim>\<open>+\<close> and \<^verbatim>\<open>{6,}\<close>. They are matched by derivatives.
\<close>

datatype rx = Never | Empty | Cls "char \<Rightarrow> bool" | Seq rx rx | Alt rx rx | Star rx

fun nullable :: "rx \<Rightarrow> bool" where
  "nullable Never = False"
| "nullable Empty = True"
| "nullable (Cls p) = False"
| "nullable (Seq r s) = (nullable r \<and> nullable s)"
| "nullable (Alt r s) = (nullable r \<or> nullable s)"
| "nullable (Star r) = True"

fun deriv :: "char \<Rightarrow> rx \<Rightarrow> rx" where
  "deriv c Never = Never"
| "deriv c Empty = Never"
| "deriv c (Cls p) = (if p c then Empty else Never)"
| "deriv c (Seq r s) =
     (if nullable r then Alt (Seq (deriv c r) s) (deriv c s) else Seq (deriv c r) s)"
| "deriv c (Alt r s) = Alt (deriv c r) (deriv c s)"
| "deriv c (Star r) = Seq (deriv c r) (Star r)"

fun fullmatch :: "rx \<Rightarrow> string \<Rightarrow> bool" where
  "fullmatch r [] = nullable r"
| "fullmatch r (c # cs) = fullmatch (deriv c r) cs"

definition Chr :: "char \<Rightarrow> rx" where
  "Chr a = Cls (\<lambda>c. c = a)"

definition Opt :: "rx \<Rightarrow> rx" where
  "Opt r = Alt r Empty"

definition Plus :: "rx \<Rightarrow> rx" where
  "Plus r = Seq r (Star r)"

fun Rep :: "nat \<Rightarrow> rx \<Rightarrow> rx" where
  "Rep 0 r = Empty"
| "Rep (Suc n) r = Seq r (Rep n r)"

definition AtLeast :: "nat \<Rightarrow> rx \<Rightarrow> rx" where
  "AtLeast n r = Seq (Rep n r) (Star r)"

text \<open>
  \<^verbatim>\<open>re.compile("^...$").match(s)\<close>: the pattern must cover the whole of \<^verbatim>\<open>s\<close>, or all of
  it but a final newline, which \<^verbatim>\<open>$\<close> lets stand.
\<close>

definition re_match :: "rx \<Rightarrow> string \<Rightarrow> bool" where
  "re_match r s = (fullmatch r s \<or> (s \<noteq> [] \<and> last s = CHR 0x0A \<and> fullmatch r (butlast s)))"

text \<open>\<^verbatim>\<open>re.sub("[^...]", "", s)\<close> for a class: the characters of the class are removed.\<close>

definition re_sub_class :: "(char \<Rightarrow> bool) \<Rightarrow> string \<Rightarrow> string" where
  "re_sub_class p s = filter (\<lambda>c. \<not> p c) s"


subsection \<open>voice.py: the message history\<close>

record message =
  role :: string
  content :: string

text \<open>\<^verbatim>\<open>history[-20:]\<close>: the last 20 entries, the whole list when it is shorter.\<close>

definition last20 :: "'a list \<Rightarrow> 'a list" where
  "last20 h = drop (length h - 20) h"

text \<open>\<^verbatim>\<open>history.append({"role": r, "content": c}); history[:] = history[-20:]\<close>\<close>

definition append_message :: "message list \<Rightarrow> string \<Rightarrow> string \<Rightarrow> message list" where
  "append_message h r c = last20 (h @ [\<lparr>role = r, content = c\<rparr>])"

text \<open>
  What one call of \<^verbatim>\<open>voice_chat_stream\<close> does to the stored history. The arguments
  besides the history and the text of the request are what the collaborators answer:
  whether the session holds tokens, the text the assistant streamed, and whether the
  booking inside the \<^verbatim>\<open>try\<close> went through, after which the history is reset.
\<close>

definition voice_chat_stream ::
  "message list \<Rightarrow> string \<Rightarrow> bool \<Rightarrow> string \<Rightarrow> bool \<Rightarrow> message list" where
  "voice_chat_stream history text has_tokens assistant_text booked =
     (let user_text = strip text in
      if user_text = [] then history
      else
        let h1 = append_message history ''user'' user_text in
        if \<not> has_tokens then h1
        else
          let h2 = append_message h1 ''assistant'' assistant_text in
          if sublist ''CONFIRMED'' assistant_text \<and> booked then [] else h2)"


subsection \<open>agent_state.py\<close>

text \<open>\<^verbatim>\<open>EMAIL_RE = ^[^@\s]+@[^@\s]+\.[^@\s]+$\<close>\<close>

definition EMAIL_RE :: rx where
  "EMAIL_RE =
     (let w = Cls (\<lambda>c. c \<noteq> CHR ''@'' \<and> \<not> isspace c) in
      Seq (Plus w) (Seq (Chr CHR ''@'') (Seq (Plus w) (Seq (Chr CHR ''.'') (Plus w)))))"

text \<open>\<^verbatim>\<open>PHONE_RE = ^\+?[0-9][0-9\s\-()]{6,}$\<close>\<close>

definition PHONE_RE :: rx where
  "PHONE_RE =
     Seq (Opt (Chr CHR ''+''))
       (Seq (Cls isdigit)
          (AtLeast 6 (Cls (\<lambda>c. isdigit c \<or> isspace c \<or> c = CHR ''-'' \<or> c = CHR ''('' \<or> c = CHR '')''))))"

definition normalize_phone :: "string \<Rightarrow> string" where
  "normalize_phone s = re_sub_class (\<lambda>c. \<not> (isdigit c \<or> c = CHR ''+'')) (strip s)"

definition is_valid_email :: "string \<Rightarrow> bool" where
  "is_valid_email s = re_match EMAIL_RE (lower (strip s))"

definition is_valid_phone :: "string \<Rightarrow> bool" where
  "is_valid_phone s = re_match PHONE_RE (normalize_phone s)"

definition parse_yes_no :: "string \<Rightarrow> bool option" where
  "parse_yes_no text =
     (let t = lower (strip text) in
      if t \<in> set [''yes'', ''y'', ''yeah'', ''yep'', ''confirm'', ''correct'', ''ok'', ''okay'']
      then Some True
      else if t \<in> set [''no'', ''n'', ''nope'', ''cancel'', ''restart''] then Some False
      else None)"

text \<open>
  The dataclass of \<^verbatim>\<open>agent_state.py\<close>. Python does not enforce the annotations and
  \<^verbatim>\<open>BookingState(**d)\<close> stores what \<^verbatim>\<open>d\<close> holds, so every field is \<^verbatim>\<open>None\<close> or a
  string here.
\<close>

record AgentBookingState =
  a_step :: "string option"
  a_email :: "string option"
  a_phone :: "string option"
  a_title :: "string option"

definition AgentBookingState_default :: AgentBookingState where
  "AgentBookingState_default =
     \<lparr>a_step = Some ''ask_email'', a_email = None, a_phone = None,
      a_title = Some ''Scheduled Meeting''\<rparr>"

definition build_confirmation :: "AgentBookingState \<Rightarrow> string" where
  "build_confirmation st =
     ''Please confirm the details:'' @ nl
     @ ''- Email: '' @ fmt (a_email st) @ nl
     @ ''- Phone: '' @ fmt (a_phone st) @ nl @ nl
     @ ''Reply with **yes** to confirm, or **no** to restart.''"

record agent_turn =
  state :: AgentBookingState
  reply :: string
  action :: "string option"

definition handle_user_message :: "AgentBookingState \<Rightarrow> string \<Rightarrow> agent_turn" where
  "handle_user_message st text =
     (let user_text = strip text in
      if a_step st = Some ''ask_email'' then
        (if \<not> is_valid_email user_text then
           \<lparr>state = st,
            reply = ''Please provide a valid email address (e.g., john.doe@gmail.com).'',
            action = None\<rparr>
         else
           \<lparr>state = st\<lparr>a_email := Some (lower (strip user_text)), a_step := Some ''ask_phone''\<rparr>,
            reply = ''Thanks! Now please provide your phone number (digits, may include +).'',
            action = None\<rparr>)
      else if a_step st = Some ''ask_phone'' then
        (if \<not> is_valid_phone user_text then
           \<lparr>state = st,
            reply = ''Please provide a valid phone number (e.g., +14155552671).'',
            action = None\<rparr>
         else
           (let st' = st\<lparr>a_phone := Some (normalize_phone user_text), a_step := Some ''confirm''\<rparr>
            in \<lparr>state = st', reply = build_confirmation st', action = None\<rparr>))
      else if a_step st = Some ''confirm'' then
        (case parse_yes_no user_text of
           None \<Rightarrow>
             \<lparr>state = st,
              reply = ''Please reply with **yes** to confirm or **no** to restart.'',
              action = None\<rparr>
         | Some False \<Rightarrow>
             \<lparr>state = AgentBookingState_default\<lparr>a_title := a_title st\<rparr>,
              reply = ''No problem '' @ em_dash @ '' let'' @ apostrophe @ ''s start over.'' @ nl
                      @ ''What'' @ apostrophe @ ''s your email?'',
              action = None\<rparr>
         | Some True \<Rightarrow>
             \<lparr>state = st\<lparr>a_step := Some ''done''\<rparr>,
              reply = ''Great '' @ em_dash @ '' creating your meeting now'' @ ellipsis,
              action = Some ''create_meeting''\<rparr>)
      else if a_step st = Some ''done'' then
        \<lparr>state = st,
         reply = ''This session is already completed. Clear to start a new one.'',
         action = None\<rparr>
      else
        \<lparr>state = st,
         reply = ''I'' @ apostrophe @ ''m not sure what to do next.'',
         action = None\<rparr>)"

text \<open>
  A dictionary with string keys is an association list; its values are \<^verbatim>\<open>None\<close> or
  strings. \<^verbatim>\<open>asdict\<close> lists the fields in the order of their declaration.
\<close>

type_synonym pydict = "(string \<times> string option) list"

definition state_to_dict :: "AgentBookingState \<Rightarrow> pydict" where
  "state_to_dict st =
     [(''step'', a_step st), (''email'', a_email st), (''phone'', a_phone st),
      (''title'', a_title st)]"

datatype py_error = TypeError string

text \<open>
  \<^verbatim>\<open>BookingState(**(d or {}))\<close>: an absent or empty dictionary gives the defaults, a key
  that is not a field is a \<^verbatim>\<open>TypeError\<close>, and a field without entry keeps its default.
\<close>

definition kwarg :: "pydict \<Rightarrow> string \<Rightarrow> string option \<Rightarrow> string option" where
  "kwarg d k dflt = (case map_of d k of None \<Rightarrow> dflt | Some v \<Rightarrow> v)"

definition dict_to_state :: "pydict option \<Rightarrow> py_error + AgentBookingState" where
  "dict_to_state d =
     (let kw = (case d of None \<Rightarrow> [] | Some kvs \<Rightarrow> kvs) in
      case filter (\<lambda>k. k \<notin> set [''step'', ''email'', ''phone'', ''title'']) (map fst kw) of
        k # _ \<Rightarrow> Inl (TypeError k)
      | [] \<Rightarrow>
          Inr \<lparr>a_step = kwarg kw ''step'' (a_step AgentBookingState_default),
               a_email = kwarg kw ''email'' (a_email AgentBookingState_default),
               a_phone = kwarg kw ''phone'' (a_phone AgentBookingState_default),
               a_title = kwarg kw ''title'' (a_title AgentBookingState_default)\<rparr>)"

subsection \<open>chat.py\<close>

record BookingState =
  step :: string
  email :: "string option"
  phone :: "string option"
  start_iso :: "string option"
  title :: "string option"

definition BookingState_default :: BookingState where
  "BookingState_default =
     \<lparr>step = ''ask_email_phone'', email = None, phone = None, start_iso = None, title = None\<rparr>"

text \<open>
  The values of the module that come from the environment: \<^verbatim>\<open>TZ_NAME\<close>,
  \<^verbatim>\<open>CALENDAR_ID\<close>, \<^verbatim>\<open>DEFAULT_DURATION_MIN\<close> and \<^verbatim>\<open>DEFAULT_TITLE\<close>.
\<close>

record config =
  TZ_NAME :: string
  CALENDAR_ID :: string
  DEFAULT_DURATION_MIN :: int
  DEFAULT_TITLE :: string

text \<open>\<^verbatim>\<open>_load_state\<close>: a session without booking state gets the default one.\<close>

definition load_state :: "BookingState option \<Rightarrow> BookingState" where
  "load_state raw = (case raw of None \<Rightarrow> BookingState_default | Some st \<Rightarrow> st)"

definition is_yes :: "string \<Rightarrow> bool" where
  "is_yes text =
     (lower (strip text)
        \<in> set [''yes'', ''y'', ''yeah'', ''yep'', ''confirm'', ''ok'', ''okay'', ''sure''])"

definition is_no :: "string \<Rightarrow> bool" where
  "is_no text = (lower (strip text) \<in> set [''no'', ''n'', ''nope'', ''cancel'', ''restart''])"

text \<open>
  A \<^verbatim>\<open>datetime\<close> of the standard library; \<^verbatim>\<open>utcoffset\<close> is in minutes, and
  \<^verbatim>\<open>None\<close> for a naive value.
\<close>

record datetime =
  year :: nat
  month :: nat
  day :: nat
  hour :: nat
  minute :: nat
  second :: nat
  utcoffset :: "int option"

text \<open>
  \<^verbatim>\<open>_parse_iso_datetime\<close>. The parser of the standard library,
  \<^verbatim>\<open>datetime.fromisoformat\<close>, is the first argument; it answers \<^verbatim>\<open>None\<close> where the
  library raises, which the \<^verbatim>\<open>except\<close> turns into \<^verbatim>\<open>None\<close>.
\<close>

definition parse_iso_datetime :: "(string \<Rightarrow> datetime option) \<Rightarrow> string \<Rightarrow> datetime option" where
  "parse_iso_datetime fromisoformat s =
     (if s = [] then None
      else
        let s2 = strip s;
            s2 = (if s2 \<noteq> [] \<and> last s2 = CHR ''Z'' then butlast s2 @ ''+00:00'' else s2)
        in fromisoformat s2)"

text \<open>
  The planner's answer, in the shape of the JSON schema of \<^verbatim>\<open>llm_extract_and_validate\<close>.
  A key that the answer lacks reads as \<^verbatim>\<open>None\<close>, which is falsy, as \<^verbatim>\<open>dict.get\<close> gives.
\<close>

record extracted =
  x_email :: "string option"
  email_ok :: bool
  x_phone :: "string option"
  phone_ok :: bool
  x_start_iso :: "string option"
  start_ok :: bool
  x_title :: "string option"
  x_confirm :: "string option"

record planner_notes =
  email_reason :: "string option"
  phone_reason :: "string option"
  time_reason :: "string option"

record plan =
  p_extracted :: "extracted option"
  p_notes :: "planner_notes option"

definition no_extracted :: extracted where
  "no_extracted =
     \<lparr>x_email = None, email_ok = False, x_phone = None, phone_ok = False,
      x_start_iso = None, start_ok = False, x_title = None, x_confirm = None\<rparr>"

definition no_notes :: planner_notes where
  "no_notes = \<lparr>email_reason = None, phone_reason = None, time_reason = None\<rparr>"

text \<open>\<^verbatim>\<open>plan.get("extracted") or {}\<close> and \<^verbatim>\<open>plan.get("notes") or {}\<close>\<close>

definition plan_extracted :: "plan \<Rightarrow> extracted" where
  "plan_extracted p = (case p_extracted p of None \<Rightarrow> no_extracted | Some e \<Rightarrow> e)"

definition plan_notes :: "plan \<Rightarrow> planner_notes" where
  "plan_notes p = (case p_notes p of None \<Rightarrow> no_notes | Some n \<Rightarrow> n)"

text \<open>The dictionary that the \<^verbatim>\<open>except\<close> of \<^verbatim>\<open>llm_extract_and_validate\<close> returns.\<close>

definition safe_fallback :: plan where
  "safe_fallback =
     \<lparr>p_extracted = Some no_extracted,
      p_notes = Some \<lparr>email_reason = Some ''parse_error'', phone_reason = Some ''parse_error'',
                      time_reason = Some ''parse_error''\<rparr>\<rparr>"

text \<open>
  \<^verbatim>\<open>llm_extract_and_validate\<close>. Its second argument is what
  \<^verbatim>\<open>client.responses.create\<close> does: it raises (\<open>Inl\<close>, with the message of the exception) or
  returns a response (\<open>Inr\<close>, with its \<^verbatim>\<open>output_text\<close>). The call stands before the
  \<^verbatim>\<open>try\<close>, so what it raises leaves the function. The first argument is \<^verbatim>\<open>json.loads\<close>
  on a text that follows the schema, \<^verbatim>\<open>None\<close> where it raises.
\<close>

definition llm_extract_and_validate ::
  "(string \<Rightarrow> plan option) \<Rightarrow> string + string \<Rightarrow> string + plan" where
  "llm_extract_and_validate json_loads r =
     (case r of
        Inl e \<Rightarrow> Inl e
      | Inr output_text \<Rightarrow>
          (case json_loads output_text of
             Some p \<Rightarrow> Inr p
           | None \<Rightarrow> Inr safe_fallback))"

definition contact_summary :: "BookingState \<Rightarrow> string" where
  "contact_summary st =
     ''Email: '' @ py_or (email st) ''(missing)'' @ ''\<newline>Phone: '' @ py_or (phone st) ''(missing)''"

definition final_summary :: "config \<Rightarrow> BookingState \<Rightarrow> string" where
  "final_summary cfg st =
     ''Email: '' @ fmt (email st) @ ''\<newline>''
     @ ''Phone: '' @ fmt (phone st) @ ''\<newline>''
     @ ''Start: '' @ fmt (start_iso st) @ '' ('' @ TZ_NAME cfg @ '')\<newline>''
     @ ''Title: '' @ py_or (title st) (DEFAULT_TITLE cfg) @ ''\<newline>''"

text \<open>The value of an optional string that a guard has found truthy.\<close>

definition str_of :: "string option \<Rightarrow> string" where
  "str_of x = (case x of None \<Rightarrow> [] | Some s \<Rightarrow> s)"

text \<open>Lines 279 to 284 of \<^verbatim>\<open>chat_stream\<close>: the explicit yes or no of the user wins.\<close>

definition resolve_confirm :: "extracted \<Rightarrow> string \<Rightarrow> string option" where
  "resolve_confirm ex user_text =
     (if is_yes user_text then Some ''yes''
      else if is_no user_text then Some ''no''
      else x_confirm ex)"

text \<open>
  The step machine of \<^verbatim>\<open>chat_stream\<close>, lines 291 to 359: the state to save and the
  planned text.
\<close>

definition step_machine ::
  "(string \<Rightarrow> datetime option) \<Rightarrow> config \<Rightarrow> BookingState \<Rightarrow> extracted \<Rightarrow> planner_notes
     \<Rightarrow> string option \<Rightarrow> string \<Rightarrow> BookingState \<times> string" where
  "step_machine fromisoformat cfg st ex nts confirm user_text =
     (if step st = ''ask_email_phone'' then
        (let st = (if email_ok ex \<and> truthy (x_email ex)
                   then st\<lparr>email := Some (lower (strip (str_of (x_email ex))))\<rparr> else st);
             st = (if phone_ok ex \<and> truthy (x_phone ex)
                   then st\<lparr>phone := Some (take 40 (strip (str_of (x_phone ex))))\<rparr> else st)
         in
         if \<not> truthy (email st) \<or> \<not> truthy (phone st) then
           (let reason_email = py_or (email_reason nts) [];
                reason_phone = py_or (phone_reason nts) [];
                planned_text =
                  ''Please provide BOTH a valid email and a valid phone number in one message.\<newline>''
                  @ ''Example: john@example.com, +1 415 555 2671\<newline>''
            in
            (st,
             if reason_email \<noteq> [] \<or> reason_phone \<noteq> [] then
               planned_text @ ''\<newline>(Details: email=''
                 @ (if reason_email \<noteq> [] then reason_email else ''missing'')
                 @ '', phone='' @ (if reason_phone \<noteq> [] then reason_phone else ''missing'')
                 @ '')''
             else planned_text))
         else
           (let st = st\<lparr>step := ''confirm_contact''\<rparr> in
            (st,
             ''Thanks! Please confirm these details:\<newline>'' @ contact_summary st
               @ ''\<newline>\<newline>Reply 'yes' to confirm or 'no' to re-enter.'')))
      else if step st = ''confirm_contact'' then
        (if confirm = Some ''no'' then
           (BookingState_default,
            ''No problem. Please tell me your email and phone number again.'')
         else if confirm = Some ''yes'' then
           (st\<lparr>step := ''ask_time''\<rparr>,
            ''Great. What date and time would you like to schedule the meeting?'')
         else
           (st, ''Please reply 'yes' to confirm or 'no' to re-enter your email and phone.''))
      else if step st = ''ask_time'' then
        (if start_ok ex \<and> truthy (x_start_iso ex) then
           (case parse_iso_datetime fromisoformat (str_of (x_start_iso ex)) of
              None \<Rightarrow>
                (st,
                 ''Sorry '' @ em_dash @ '' I couldn'' @ apostrophe
                   @ ''t parse that time. Please try again (e.g., 'Feb 16 2pm').'')
            | Some dt \<Rightarrow>
                (st\<lparr>start_iso := x_start_iso ex, step := ''ask_title''\<rparr>,
                 ''Optional: what'' @ apostrophe @ ''s the meeting title? You can say 'skip'.''))
         else
           (let reason = py_or (time_reason nts) ''missing/ambiguous'' in
            (st,
             ''Sorry, I couldn'' @ apostrophe @ ''t understand the date/time.\<newline>''
               @ ''Try: 'Feb 16 2pm' or 'next Monday 3pm'.\<newline>''
               @ ''(Details: '' @ reason @ '')'')))
      else if step st = ''ask_title'' then
        (let t = strip (py_or (x_title ex) user_text);
             st = (if lower t \<in> set [''skip'', ''no'', ''none'']
                   then st\<lparr>title := Some (DEFAULT_TITLE cfg)\<rparr>
                   else st\<lparr>title := Some (if t \<noteq> [] then take 120 t else DEFAULT_TITLE cfg)\<rparr>);
             st = st\<lparr>step := ''confirm_all''\<rparr>
         in
         (st,
          ''Please confirm the meeting details:\<newline>'' @ final_summary cfg st
            @ ''\<newline>Create the calendar event now? (yes/no)''))
      else if step st = ''confirm_all'' then
        (if confirm = Some ''no'' then
           (st\<lparr>step := ''ask_time'', start_iso := None\<rparr>,
            ''Okay. Let'' @ apostrophe @ ''s pick a new time. What date and time would you like?'')
         else if confirm = Some ''yes'' then
           (st, ''Got it '' @ em_dash @ '' creating your calendar event now'' @ ellipsis)
         else
           (st, ''Please reply 'yes' to create the event or 'no' to change the time.''))
      else if step st = ''done'' then
        (st, ''Your event is already created. Click Clear to start a new booking.'')
      else (st, []))"

text \<open>The keyword arguments of the call of \<^verbatim>\<open>create_google_calendar_event\<close>.\<close>

record calendar_event =
  calendar_id :: string
  ev_title :: string
  start_dt :: datetime
  duration_min :: int
  tz_name :: string
  attendee_email :: string
  description :: string

text \<open>What the call returns: the two links that \<^verbatim>\<open>chat_stream\<close> reads.\<close>

record created =
  htmlLink :: "string option"
  hangoutLink :: "string option"

datatype sse_event = Delta string | Done

text \<open>
  The two characters \<^verbatim>\<open>\n\<close>, a backslash and the letter n: the two warnings of the
  commit stage are string literals inside the braces of an f-string, where
  \<^verbatim>\<open>\\n\<close> is a backslash followed by n.
\<close>

definition backslash_n :: string where
  "backslash_n = [CHR 0x5C, CHR ''n'']"

definition internal_error_text :: string where
  "internal_error_text =
     backslash_n @ backslash_n @ warning_sign @ '' Internal error: invalid start_iso format.''"

definition failed_text :: "string \<Rightarrow> string" where
  "failed_text e = backslash_n @ backslash_n @ warning_sign @ '' Failed to create event: '' @ e"

definition created_text :: "created \<Rightarrow> BookingState \<Rightarrow> string" where
  "created_text c st2 =
     ''\<newline>\<newline>'' @ check_mark @ '' Event created!\<newline>''
     @ (if truthy (hangoutLink c) then ''Meet link: '' @ str_of (hangoutLink c) @ ''\<newline>'' else [])
     @ (if truthy (htmlLink c) then ''Calendar link: '' @ str_of (htmlLink c) @ ''\<newline>'' else [])
     @ ''Invite email sent to: '' @ fmt (email st2)"

text \<open>
  The arguments that part B of \<^verbatim>\<open>sse\<close> gives the calendar; the end of the event is the
  start plus the duration.
\<close>

definition commit_event :: "config \<Rightarrow> BookingState \<Rightarrow> datetime \<Rightarrow> calendar_event" where
  "commit_event cfg st2 dt =
     \<lparr>calendar_id = CALENDAR_ID cfg,
      ev_title = py_or (title st2) (DEFAULT_TITLE cfg),
      start_dt = dt,
      duration_min = DEFAULT_DURATION_MIN cfg,
      tz_name = TZ_NAME cfg,
      attendee_email = str_of (email st2),
      description = ''Phone: '' @ str_of (phone st2)\<rparr>"

text \<open>The condition of line 373, on the state read back from the session.\<close>

definition commit_due :: "BookingState \<Rightarrow> string option \<Rightarrow> bool" where
  "commit_due st2 confirm =
     (step st2 = ''confirm_all'' \<and> confirm = Some ''yes'' \<and> truthy (start_iso st2)
      \<and> truthy (email st2) \<and> truthy (phone st2))"

text \<open>
  Part B of \<^verbatim>\<open>sse\<close>, lines 372 to 408, on the state just saved: the state to keep, the
  text events it adds, and the calls of the calendar it makes. The third argument is
  \<^verbatim>\<open>create_google_calendar_event\<close> with the token of the session, \<open>Inl\<close> with the
  text of the exception where the body of the \<^verbatim>\<open>try\<close> raises.
\<close>

definition commit_stage ::
  "(string \<Rightarrow> datetime option) \<Rightarrow> config \<Rightarrow> (calendar_event \<Rightarrow> string + created)
     \<Rightarrow> BookingState \<Rightarrow> string option
     \<Rightarrow> BookingState \<times> sse_event list \<times> calendar_event list" where
  "commit_stage fromisoformat cfg create_google_calendar_event st2 confirm =
     (if commit_due st2 confirm then
        (case parse_iso_datetime fromisoformat (str_of (start_iso st2)) of
           None \<Rightarrow> (st2, [Delta internal_error_text], [])
         | Some dt \<Rightarrow>
             (let ev = commit_event cfg st2 dt in
              case create_google_calendar_event ev of
                Inl e \<Rightarrow> (st2, [Delta (failed_text e)], [ev])
              | Inr c \<Rightarrow> (st2\<lparr>step := ''done''\<rparr>, [Delta (created_text c st2)], [ev])))
      else (st2, [], []))"

text \<open>
  What the collaborators of one request answer: the planner
  (\<^verbatim>\<open>llm_extract_and_validate\<close>, \<open>Inl\<close> where it raises), the chunks of
  \<^verbatim>\<open>llm_stream_reply\<close> for an utterance, a state and a planned text, and the calendar.
  The speaker is taken to finish its stream; one that raises ends the request before
  part B of \<^verbatim>\<open>sse\<close>, with the state as the step machine saved it.
\<close>

record world =
  planner :: "string + plan"
  speaker :: "string \<Rightarrow> BookingState \<Rightarrow> string \<Rightarrow> string list"
  calendar :: "calendar_event \<Rightarrow> string + created"

text \<open>
  What one request leaves: the booking state of the session, the planned text, the
  events sent, the calls of the calendar, and the exception that left the handler.
\<close>

record outcome =
  saved :: BookingState
  planned :: string
  events :: "sse_event list"
  calls :: "calendar_event list"
  raised :: "string option"

definition not_connected_text :: string where
  "not_connected_text =
     warning_sign
     @ '' Google Calendar is not connected yet. Please complete OAuth login first: /auth/google''"

text \<open>
  \<^verbatim>\<open>chat_stream\<close> with its \<^verbatim>\<open>sse\<close>. \<open>raw\<close> is the booking state the session holds,
  \<open>has_tokens\<close> whether it holds tokens, \<open>last_content\<close> the content of the last message
  (empty without messages).
\<close>

definition chat_stream ::
  "(string \<Rightarrow> datetime option) \<Rightarrow> config \<Rightarrow> world \<Rightarrow> BookingState option \<Rightarrow> bool
     \<Rightarrow> string \<Rightarrow> outcome" where
  "chat_stream fromisoformat cfg w raw has_tokens last_content =
     (let user_text = strip last_content;
          st = load_state raw
      in
      if \<not> has_tokens then
        \<lparr>saved = st, planned = [], events = [Delta not_connected_text, Done], calls = [],
         raised = None\<rparr>
      else
        case planner w of
          Inl e \<Rightarrow> \<lparr>saved = st, planned = [], events = [], calls = [], raised = Some e\<rparr>
        | Inr p \<Rightarrow>
            (let ex = plan_extracted p;
                 nts = plan_notes p;
                 confirm = resolve_confirm ex user_text;
                 (st, planned_text) = step_machine fromisoformat cfg st ex nts confirm user_text;
                 chunks = filter (\<lambda>c. c \<noteq> []) (speaker w user_text st planned_text);
                 (st2, extra, cs) = commit_stage fromisoformat cfg (calendar w) st confirm
             in
             \<lparr>saved = st2, planned = planned_text,
              events = map Delta chunks @ extra @ [Done], calls = cs, raised = None\<rparr>))"

subsection \<open>A parser and collaborators for examples\<close>

text \<open>
  A part of \<^verbatim>\<open>datetime.fromisoformat\<close>, to run the machine on examples: a date and a
  time to the second, \<^verbatim>\<open>YYYY-MM-DD*HH:MM:SS\<close> with any character for \<^verbatim>\<open>*\<close>, alone (the
  result is naive) or followed by an offset \<^verbatim>\<open>+HH:MM\<close> or \<^verbatim>\<open>-HH:MM\<close>. The library
  reads every such string so, and more strings besides, on which this part answers
  \<^verbatim>\<open>None\<close>. The properties of the machine are proved for every parser.
\<close>

definition digits_value :: "string \<Rightarrow> nat" where
  "digits_value s = foldl (\<lambda>n c. 10 * n + (of_char c - 48)) 0 s"

definition is_leap :: "nat \<Rightarrow> bool" where
  "is_leap y = (y mod 4 = 0 \<and> (y mod 100 \<noteq> 0 \<or> y mod 400 = 0))"

definition days_in_month :: "nat \<Rightarrow> nat \<Rightarrow> nat" where
  "days_in_month y m =
     (if m = 2 then (if is_leap y then 29 else 28)
      else if m \<in> set [4, 6, 9, 11] then 30 else 31)"

definition parse_offset :: "string \<Rightarrow> int option option" where
  "parse_offset s =
     (if s = [] then Some None
      else if length s = 6 \<and> (s ! 0 = CHR ''+'' \<or> s ! 0 = CHR ''-'') \<and> s ! 3 = CHR '':''
              \<and> all_digits (take 2 (drop 1 s) @ drop 4 s)
              \<and> digits_value (take 2 (drop 1 s)) < 24 \<and> digits_value (drop 4 s) < 60
      then
        (let m = int (60 * digits_value (take 2 (drop 1 s)) + digits_value (drop 4 s))
         in Some (Some (if s ! 0 = CHR ''-'' then - m else m)))
      else None)"

definition fromisoformat_seconds :: "string \<Rightarrow> datetime option" where
  "fromisoformat_seconds s =
     (if length s \<noteq> 19 \<and> length s \<noteq> 25 then None
      else
        let y = digits_value (take 4 s);
            mo = digits_value (take 2 (drop 5 s));
            d = digits_value (take 2 (drop 8 s));
            h = digits_value (take 2 (drop 11 s));
            mi = digits_value (take 2 (drop 14 s));
            se = digits_value (take 2 (drop 17 s))
        in
        if all_digits (take 4 s @ take 2 (drop 5 s) @ take 2 (drop 8 s) @ take 2 (drop 11 s)
                       @ take 2 (drop 14 s) @ take 2 (drop 17 s))
           \<and> s ! 4 = CHR ''-'' \<and> s ! 7 = CHR ''-'' \<and> s ! 13 = CHR '':'' \<and> s ! 16 = CHR '':''
           \<and> 1 \<le> y \<and> 1 \<le> mo \<and> mo \<le> 12 \<and> 1 \<le> d \<and> d \<le> days_in_month y mo
           \<and> h < 24 \<and> mi < 60 \<and> se < 60
        then
          (case parse_offset (drop 19 s) of
             None \<Rightarrow> None
           | Some off \<Rightarrow>
               Some \<lparr>year = y, month = mo, day = d, hour = h, minute = mi, second = se,
                     utcoffset = off\<rparr>)
        else None)"

definition example_config :: config where
  "example_config =
     \<lparr>TZ_NAME = ''America/Los_Angeles'', CALENDAR_ID = ''primary'',
      DEFAULT_DURATION_MIN = 30, DEFAULT_TITLE = ''Scheduled Meeting''\<rparr>"

text \<open>
  Collaborators for examples: the planner answers \<open>p\<close>, the speaker says the planned
  text in one chunk, and the calendar answers \<open>c\<close> to every call.
\<close>

definition example_world :: "plan \<Rightarrow> string + created \<Rightarrow> world" where
  "example_world p c =
     \<lparr>planner = Inr p, speaker = (\<lambda>user_text st planned_text. [planned_text]),
      calendar = (\<lambda>ev. c)\<rparr>"

definition example_plan :: "extracted \<Rightarrow> plan" where
  "example_plan ex = \<lparr>p_extracted = Some ex, p_notes = Some no_notes\<rparr>"

definition example_booking :: BookingState where
  "example_booking =
     \<lparr>step = ''confirm_all'', email = Some ''john.doe@example.com'',
      phone = Some ''+14155552671'', start_iso = Some ''2026-02-16T14:00:00-08:00'',
      title = Some ''Sync''\<rparr>"

definition example_contact :: BookingState where
  "example_contact =
     \<lparr>step = ''confirm_contact'', email = Some ''john.doe@example.com'',
      phone = Some ''+14155552671'', start_iso = None, title = None\<rparr>"

definition example_agent_confirm :: AgentBookingState where
  "example_agent_confirm =
     \<lparr>a_step = Some ''confirm'', a_email = Some ''john.doe@example.com'',
      a_phone = Some ''+14155552671'', a_title = Some ''Scheduled Meeting''\<rparr>"

definition example_links :: created where
  "example_links =
     \<lparr>htmlLink = Some ''https://calendar.example/e1'',
      hangoutLink = Some ''https://meet.example/m1''\<rparr>"

subsection \<open>Predicates of the properties\<close>

text \<open>The start time that a state of \<^verbatim>\<open>chat.py\<close> holds, if any, is one the parser reads.\<close>

definition start_iso_checked :: "(string \<Rightarrow> datetime option) \<Rightarrow> BookingState \<Rightarrow> bool" where
  "start_iso_checked fromisoformat st =
     (case start_iso st of None \<Rightarrow> True
      | Some s \<Rightarrow> parse_iso_datetime fromisoformat s \<noteq> None)"

text \<open>
  The email and the phone that a state of \<^verbatim>\<open>agent_state.py\<close> holds, if any, pass
  \<^verbatim>\<open>is_valid_email\<close> and \<^verbatim>\<open>is_valid_phone\<close>.
\<close>

definition agent_fields_valid :: "AgentBookingState \<Rightarrow> bool" where
  "agent_fields_valid st =
     ((case a_email st of None \<Rightarrow> True | Some e \<Rightarrow> is_valid_email e)
      \<and> (case a_phone st of None \<Rightarrow> True | Some p \<Rightarrow> is_valid_phone p))"

text \<open>
  A shape of a string, to state what the phone functions give: digits behind one
  optional leading plus sign.
\<close>

definition digits_after_optional_plus :: "string \<Rightarrow> bool" where
  "digits_after_optional_plus s =
     (case s of [] \<Rightarrow> True | c # r \<Rightarrow> (isdigit c \<or> c = CHR ''+'') \<and> all_digits r)"

section \<open>Properties\<close>

subsection \<open>The matcher\<close>

lemma fullmatch_Never [simp]: "fullmatch Never s = False"
  by (induction s) auto

lemma fullmatch_Empty [simp]: "fullmatch Empty s = (s = [])"
  by (cases s) auto

lemma fullmatch_Cls [simp]: "fullmatch (Cls p) s = (\<exists>c. s = [c] \<and> p c)"
  by (cases s) auto

lemma fullmatch_Alt [simp]: "fullmatch (Alt r1 r2) s = (fullmatch r1 s \<or> fullmatch r2 s)"
  by (induction s arbitrary: r1 r2) auto

lemma fullmatch_Seq:
  "fullmatch (Seq r1 r2) s = (\<exists>u v. s = u @ v \<and> fullmatch r1 u \<and> fullmatch r2 v)"
proof (induction s arbitrary: r1 r2)
  case Nil
  show ?case by simp
next
  case (Cons c cs)
  have split: "\<And>P. (\<exists>u v. c # cs = u @ v \<and> P u v)
                 = (P [] (c # cs) \<or> (\<exists>u v. cs = u @ v \<and> P (c # u) v))"
    by (auto simp: Cons_eq_append_conv)
  show ?case
    by (simp add: fullmatch_Alt Cons.IH split) blast
qed

lemma fullmatch_Star_Cls: "fullmatch (Star (Cls p)) s = (\<forall>c\<in>set s. p c)"
proof (induction s)
  case Nil
  show ?case by simp
next
  case (Cons c cs)
  then show ?case
    by (auto simp: fullmatch_Seq  )
qed

lemma fullmatch_Rep_Cls:
  "fullmatch (Rep n (Cls p)) s = (length s = n \<and> (\<forall>c\<in>set s. p c))"
proof (induction n arbitrary: s)
  case 0
  show ?case by auto
next
  case (Suc n)
  show ?case
    by (cases s) (auto simp: fullmatch_Seq fullmatch_Cls Suc.IH)
qed

lemma fullmatch_AtLeast_Cls:
  "fullmatch (AtLeast n (Cls p)) s = (n \<le> length s \<and> (\<forall>c\<in>set s. p c))"
proof
  assume "fullmatch (AtLeast n (Cls p)) s"
  then show "n \<le> length s \<and> (\<forall>c\<in>set s. p c)"
    by (auto simp: AtLeast_def fullmatch_Seq fullmatch_Rep_Cls fullmatch_Star_Cls)
next
  assume a: "n \<le> length s \<and> (\<forall>c\<in>set s. p c)"
  have "s = take n s @ drop n s" by simp
  moreover have "fullmatch (Rep n (Cls p)) (take n s)"
    using a by (auto simp: fullmatch_Rep_Cls dest: in_set_takeD)
  moreover have "fullmatch (Star (Cls p)) (drop n s)"
    using a by (auto simp: fullmatch_Star_Cls dest: in_set_dropD)
  ultimately show "fullmatch (AtLeast n (Cls p)) s"
    unfolding AtLeast_def fullmatch_Seq by blast
qed

lemma fullmatch_Plus_Cls:
  "fullmatch (Plus (Cls p)) s = (s \<noteq> [] \<and> (\<forall>c\<in>set s. p c))"
  by (cases s) (auto simp: Plus_def fullmatch_Seq fullmatch_Cls fullmatch_Star_Cls Cons_eq_append_conv)

lemma fullmatch_Seq_Cls:
  "fullmatch (Seq (Cls p) r) s = (\<exists>c cs. s = c # cs \<and> p c \<and> fullmatch r cs)"
  by (cases s) (auto simp: fullmatch_Seq)

lemma fullmatch_Seq_Opt:
  "fullmatch (Seq (Opt r) t) s = (fullmatch (Seq r t) s \<or> fullmatch t s)"
proof -
  have "fullmatch (Seq (Opt r) t) s
          = (\<exists>u v. s = u @ v \<and> (fullmatch r u \<or> u = []) \<and> fullmatch t v)"
    by (simp add: Opt_def fullmatch_Seq)
  also have "\<dots> = ((\<exists>u v. s = u @ v \<and> fullmatch r u \<and> fullmatch t v) \<or> fullmatch t s)"
  proof
    assume "\<exists>u v. s = u @ v \<and> (fullmatch r u \<or> u = []) \<and> fullmatch t v"
    then obtain u v where "s = u @ v" "fullmatch r u \<or> u = []" "fullmatch t v" by blast
    then show "(\<exists>u v. s = u @ v \<and> fullmatch r u \<and> fullmatch t v) \<or> fullmatch t s"
      by (cases "u = []") auto
  next
    assume "(\<exists>u v. s = u @ v \<and> fullmatch r u \<and> fullmatch t v) \<or> fullmatch t s"
    then show "\<exists>u v. s = u @ v \<and> (fullmatch r u \<or> u = []) \<and> fullmatch t v"
    proof
      assume "\<exists>u v. s = u @ v \<and> fullmatch r u \<and> fullmatch t v"
      then show ?thesis by blast
    next
      assume "fullmatch t s"
      then have "s = [] @ s \<and> (fullmatch r [] \<or> [] = ([]::string)) \<and> fullmatch t s" by simp
      then show ?thesis by blast
    qed
  qed
  finally show ?thesis by (simp add: fullmatch_Seq)
qed

lemma fullmatch_Opt_Chr_Cls_AtLeast:
  "fullmatch (Seq (Opt (Chr a)) (Seq (Cls p) (AtLeast n (Cls q)))) s =
     (\<exists>d ds. (s = d # ds \<or> s = a # d # ds) \<and> p d \<and> n \<le> length ds \<and> (\<forall>c\<in>set ds. q c))"
proof -
  define T where "T = Seq (Cls p) (AtLeast n (Cls q))"
  define R where "R = (\<lambda>d ds. p d \<and> n \<le> length ds \<and> (\<forall>c\<in>set ds. q c))"
  have tail: "\<And>v. fullmatch T v = (\<exists>d ds. v = d # ds \<and> R d ds)"
    by (simp add: T_def R_def fullmatch_Seq_Cls fullmatch_AtLeast_Cls)
  have chr: "fullmatch (Seq (Chr a) T) s = (\<exists>v. s = a # v \<and> fullmatch T v)"
    unfolding Chr_def fullmatch_Seq_Cls by auto
  have "fullmatch (Seq (Opt (Chr a)) T) s
          = ((\<exists>v. s = a # v \<and> fullmatch T v) \<or> fullmatch T s)"
    by (simp only: fullmatch_Seq_Opt chr)
  also have "\<dots> = (\<exists>d ds. (s = d # ds \<or> s = a # d # ds) \<and> R d ds)"
    unfolding tail by auto
  finally show ?thesis unfolding T_def R_def .
qed

lemma fullmatch_PHONE_RE:
  "fullmatch PHONE_RE s =
     (\<exists>d ds. (s = d # ds \<or> s = CHR ''+'' # d # ds) \<and> isdigit d \<and> 6 \<le> length ds
        \<and> (\<forall>c\<in>set ds. isdigit c \<or> isspace c \<or> c = CHR ''-'' \<or> c = CHR ''('' \<or> c = CHR '')''))"
  unfolding PHONE_RE_def by (rule fullmatch_Opt_Chr_Cls_AtLeast)

subsection \<open>Trimming and lowercasing\<close>

lemma isspace_lower_char: "isspace (lower_char c) = isspace c"
  unfolding lower_char_def Let_def isspace_def by auto

lemma lower_char_idem: "lower_char (lower_char c) = lower_char c"
  unfolding lower_char_def Let_def by auto

lemma lower_idem: "lower (lower s) = lower s"
  by (simp add: lower_def lower_char_idem)

lemma dropWhile_isspace_lower: "dropWhile isspace (lower s) = lower (dropWhile isspace s)"
  by (induction s) (auto simp: lower_def isspace_lower_char)

lemma rev_lower: "rev (lower s) = lower (rev s)"
  by (simp add: lower_def rev_map)

lemma strip_lower: "strip (lower s) = lower (strip s)"
  by (simp add: strip_def dropWhile_isspace_lower rev_lower)

lemma last_dropWhile: "dropWhile P xs \<noteq> [] \<Longrightarrow> last (dropWhile P xs) = last xs"
  by (induction xs) (auto split: if_splits)

lemma strip_ends:
  "strip s = [] \<or> (\<not> isspace (hd (strip s)) \<and> \<not> isspace (last (strip s)))"
proof (cases "strip s = []")
  case True
  then show ?thesis by simp
next
  case False
  let ?t = "dropWhile isspace s"
  let ?u = "dropWhile isspace (rev ?t)"
  have s: "strip s = rev ?u" by (simp add: strip_def)
  have u: "?u \<noteq> []" using False by (simp add: strip_def)
  have t: "?t \<noteq> []"
  proof
    assume a: "?t = []"
    have "?u = []" unfolding a by simp
    with u show False ..
  qed
  have "\<not> isspace (hd ?u)" using u by (rule hd_dropWhile)
  then have l: "\<not> isspace (last (strip s))"
    unfolding s using u by (simp add: last_rev)
  have ht: "\<not> isspace (hd ?t)" using t by (rule hd_dropWhile)
  have "last ?u = last (rev ?t)" using u by (rule last_dropWhile)
  also have "\<dots> = hd ?t" using t by (simp only: last_rev)
  finally have "hd (strip s) = hd ?t"
    unfolding s using u by (simp add: hd_rev)
  with ht l show ?thesis by simp
qed

lemma dropWhile_hd_id: "xs = [] \<or> \<not> P (hd xs) \<Longrightarrow> dropWhile P xs = xs"
  by (cases xs) auto

lemma strip_no_space:
  assumes "s = [] \<or> (\<not> isspace (hd s) \<and> \<not> isspace (last s))"
  shows "strip s = s"
proof -
  have a: "dropWhile isspace s = s"
    using assms by (intro dropWhile_hd_id) blast
  have "rev s = [] \<or> \<not> isspace (hd (rev s))"
    using assms by (cases "s = []") (simp_all add: hd_rev)
  then have b: "dropWhile isspace (rev s) = rev s"
    by (rule dropWhile_hd_id)
  show ?thesis by (simp add: strip_def a b)
qed

lemma strip_idem: "strip (strip s) = strip s"
  by (rule strip_no_space) (rule strip_ends)

subsection \<open>agent_state.py\<close>

lemma dict_roundtrip: "dict_to_state (Some (state_to_dict s)) = Inr s"
  by (simp add: dict_to_state_def state_to_dict_def kwarg_def)

lemma dict_empty: "dict_to_state None = Inr AgentBookingState_default"
  "dict_to_state (Some []) = Inr AgentBookingState_default"
  by (simp_all add: dict_to_state_def kwarg_def)

lemma handle_user_message_done:
  "a_step st = Some ''done'' \<Longrightarrow>
   handle_user_message st u =
     \<lparr>state = st, reply = ''This session is already completed. Clear to start a new one.'', action = None\<rparr>"
  by (simp add: handle_user_message_def Let_def)

lemma isdigit_not_space: "isdigit c \<Longrightarrow> \<not> isspace c"
  by (auto simp: isdigit_def isspace_def)

lemma plus_not_space: "\<not> isspace (CHR ''+'')"
  by (simp add: isspace_def)

lemma strip_nospace_all:
  assumes "\<forall>c\<in>set s. \<not> isspace c"
  shows "strip s = s"
proof (rule strip_no_space)
  show "s = [] \<or> (\<not> isspace (hd s) \<and> \<not> isspace (last s))"
    using assms hd_in_set last_in_set by blast
qed

lemma normalize_phone_chars: "c \<in> set (normalize_phone s) \<Longrightarrow> isdigit c \<or> c = CHR ''+''"
  by (auto simp: normalize_phone_def re_sub_class_def)

lemma normalize_phone_idem: "normalize_phone (normalize_phone s) = normalize_phone s"
proof -
  have "\<forall>c\<in>set (normalize_phone s). \<not> isspace c"
    using normalize_phone_chars isdigit_not_space plus_not_space by blast
  then have "strip (normalize_phone s) = normalize_phone s"
    by (rule strip_nospace_all)
  then show ?thesis
    by (simp add: normalize_phone_def re_sub_class_def)
qed

lemma is_valid_phone_normalize: "is_valid_phone (normalize_phone s) = is_valid_phone s"
  by (simp add: is_valid_phone_def normalize_phone_idem)

lemma is_valid_email_normal: "is_valid_email (lower (strip s)) = is_valid_email s"
  by (simp add: is_valid_email_def strip_lower strip_idem lower_idem)

lemma newline_not_kept: "\<not> (isdigit (CHR 0x0A) \<or> CHR 0x0A = CHR ''+'')"
  by (simp add: isdigit_def)

lemma re_match_normalize_phone:
  "re_match r (normalize_phone s) = fullmatch r (normalize_phone s)"
proof -
  have "normalize_phone s \<noteq> [] \<Longrightarrow> last (normalize_phone s) \<noteq> CHR 0x0A"
    using normalize_phone_chars [of "last (normalize_phone s)" s] newline_not_kept last_in_set
    by metis
  then show ?thesis by (auto simp: re_match_def)
qed

lemma body_kept_digit:
  "isdigit c \<or> isspace c \<or> c = CHR ''-'' \<or> c = CHR ''('' \<or> c = CHR '')''
   \<Longrightarrow> isdigit c \<or> c = CHR ''+'' \<Longrightarrow> isdigit c"
  by (auto simp: isspace_def)

lemma plus_not_digit: "\<not> isdigit (CHR ''+'')"
  by (simp add: isdigit_def)

lemma is_valid_phone_shape:
  "is_valid_phone s =
     (\<exists>ds. all_digits ds \<and> 7 \<le> length ds
           \<and> (normalize_phone s = ds \<or> normalize_phone s = CHR ''+'' # ds))"
proof -
  define n where "n = normalize_phone s"
  define body where "body = (\<lambda>c. isdigit c \<or> isspace c \<or> c = CHR ''-'' \<or> c = CHR ''('' \<or> c = CHR '')'')"
  define plus where "plus = CHR ''+''"
  have kept: "\<And>c. c \<in> set n \<Longrightarrow> isdigit c \<or> c = plus"
    unfolding n_def plus_def by (rule normalize_phone_chars)
  have bk: "\<And>c. body c \<Longrightarrow> isdigit c \<or> c = plus \<Longrightarrow> isdigit c"
    unfolding body_def plus_def by (rule body_kept_digit)
  have db: "\<And>c. isdigit c \<Longrightarrow> body c" by (simp add: body_def)
  have v: "is_valid_phone s = (\<exists>d ds. (n = d # ds \<or> n = plus # d # ds) \<and> isdigit d \<and> 6 \<le> length ds
             \<and> (\<forall>c\<in>set ds. body c))"
    unfolding is_valid_phone_def re_match_normalize_phone fullmatch_PHONE_RE n_def body_def plus_def ..
  show ?thesis
    unfolding v n_def[symmetric] plus_def[symmetric] all_digits_def list_all_iff
  proof
    assume "\<exists>d ds. (n = d # ds \<or> n = plus # d # ds) \<and> isdigit d \<and> 6 \<le> length ds \<and> (\<forall>c\<in>set ds. body c)"
    then obtain d ds where c: "n = d # ds \<or> n = plus # d # ds" and d: "isdigit d"
      and l: "6 \<le> length ds" and b: "\<forall>c\<in>set ds. body c" by blast
    from c have "set ds \<subseteq> set n" by auto
    with kept b bk have "\<forall>c\<in>set ds. isdigit c" by blast
    with d have "\<forall>c\<in>set (d # ds). isdigit c" by simp
    moreover from l have "7 \<le> length (d # ds)" by simp
    ultimately show "\<exists>ds. (\<forall>c\<in>set ds. isdigit c) \<and> 7 \<le> length ds \<and> (n = ds \<or> n = plus # ds)"
      using c by blast
  next
    assume "\<exists>ds. (\<forall>c\<in>set ds. isdigit c) \<and> 7 \<le> length ds \<and> (n = ds \<or> n = plus # ds)"
    then obtain D where a: "\<forall>c\<in>set D. isdigit c" and l: "7 \<le> length D"
      and c: "n = D \<or> n = plus # D" by blast
    from l obtain d ds where D: "D = d # ds" by (cases D) auto
    from a D have "isdigit d" "\<forall>c\<in>set ds. body c" using db by auto
    moreover from l D have "6 \<le> length ds" by simp
    ultimately show "\<exists>d ds. (n = d # ds \<or> n = plus # d # ds) \<and> isdigit d \<and> 6 \<le> length ds \<and> (\<forall>c\<in>set ds. body c)"
      using c D by blast
  qed
qed

lemma is_valid_email_strip: "is_valid_email (strip s) = is_valid_email s"
  by (simp add: is_valid_email_def strip_idem)

lemma normalize_phone_strip: "normalize_phone (strip s) = normalize_phone s"
  by (simp add: normalize_phone_def strip_idem)

lemma is_valid_phone_strip: "is_valid_phone (strip s) = is_valid_phone s"
  by (simp add: is_valid_phone_def normalize_phone_strip)

lemma handle_user_message_ask_email:
  "a_step st = Some ''ask_email'' \<Longrightarrow> is_valid_email u \<Longrightarrow>
   state (handle_user_message st u)
     = st\<lparr>a_email := Some (lower (strip u)), a_step := Some ''ask_phone''\<rparr>"
  by (simp add: handle_user_message_def Let_def is_valid_email_strip strip_idem)

lemma handle_user_message_ask_phone:
  "a_step st = Some ''ask_phone'' \<Longrightarrow> is_valid_phone u \<Longrightarrow>
   state (handle_user_message st u)
     = st\<lparr>a_phone := Some (normalize_phone u), a_step := Some ''confirm''\<rparr>"
  by (simp add: handle_user_message_def Let_def is_valid_phone_strip normalize_phone_strip)

text \<open>
  C10. Converting a state of \<^verbatim>\<open>agent_state.py\<close> to a dictionary and back gives the
  state again, and an absent or empty dictionary gives the default state, whose step is
  \<^verbatim>\<open>ask_email\<close>.
\<close>

theorem dict_to_state_state_to_dict:
  "dict_to_state (Some (state_to_dict s)) = Inr s
   \<and> dict_to_state None = Inr AgentBookingState_default
   \<and> dict_to_state (Some []) = Inr AgentBookingState_default
   \<and> a_step AgentBookingState_default = Some ''ask_email''"
  by (simp add: dict_roundtrip dict_empty AgentBookingState_default_def)

theorem dict_to_state_state_to_dict_witness:
  "dict_to_state (Some [(''step'', Some ''confirm''), (''email'', Some ''a@b.c''),
                        (''phone'', Some ''+14155552671''), (''title'', None)])
     = Inr \<lparr>a_step = Some ''confirm'', a_email = Some ''a@b.c'',
            a_phone = Some ''+14155552671'', a_title = None\<rparr>"
  using dict_to_state_state_to_dict
          [of "\<lparr>a_step = Some ''confirm'', a_email = Some ''a@b.c'',
                a_phone = Some ''+14155552671'', a_title = None\<rparr>"]
  by (simp add: state_to_dict_def)

text \<open>
  C7, as the code has it. An email accepted at \<^verbatim>\<open>ask_email\<close> is stored trimmed and
  lowercased. \<^verbatim>\<open>normalize_phone\<close> trims and keeps the digits and every plus sign,
  wherever it stands; a phone is valid exactly when what is kept is one optional leading
  plus sign followed by at least 7 digits, and a phone accepted at \<^verbatim>\<open>ask_phone\<close> is
  stored in that form.
\<close>

theorem normalization_of_email_and_phone:
  "(a_step st = Some ''ask_email'' \<and> is_valid_email u \<longrightarrow>
      state (handle_user_message st u)
        = st\<lparr>a_email := Some (lower (strip u)), a_step := Some ''ask_phone''\<rparr>)
   \<and> (a_step st = Some ''ask_phone'' \<and> is_valid_phone u \<longrightarrow>
      state (handle_user_message st u)
        = st\<lparr>a_phone := Some (normalize_phone u), a_step := Some ''confirm''\<rparr>)
   \<and> normalize_phone u = filter (\<lambda>c. isdigit c \<or> c = CHR ''+'') (strip u)
   \<and> is_valid_phone u
       = (\<exists>ds. all_digits ds \<and> 7 \<le> length ds
              \<and> (normalize_phone u = ds \<or> normalize_phone u = CHR ''+'' # ds))"
proof (intro conjI impI)
  assume "a_step st = Some ''ask_email'' \<and> is_valid_email u"
  then show "state (handle_user_message st u)
               = st\<lparr>a_email := Some (lower (strip u)), a_step := Some ''ask_phone''\<rparr>"
    by (simp add: handle_user_message_ask_email)
next
  assume "a_step st = Some ''ask_phone'' \<and> is_valid_phone u"
  then show "state (handle_user_message st u)
               = st\<lparr>a_phone := Some (normalize_phone u), a_step := Some ''confirm''\<rparr>"
    by (simp add: handle_user_message_ask_phone)
next
  show "normalize_phone u = filter (\<lambda>c. isdigit c \<or> c = CHR ''+'') (strip u)"
    by (simp add: normalize_phone_def re_sub_class_def)
next
  show "is_valid_phone u
          = (\<exists>ds. all_digits ds \<and> 7 \<le> length ds
                 \<and> (normalize_phone u = ds \<or> normalize_phone u = CHR ''+'' # ds))"
    by (rule is_valid_phone_shape)
qed

theorem normalization_of_email_and_phone_witness:
  "state (handle_user_message AgentBookingState_default '' John.Doe@Example.COM '')
     = AgentBookingState_default
         \<lparr>a_email := Some ''john.doe@example.com'', a_step := Some ''ask_phone''\<rparr>
   \<and> state (handle_user_message (AgentBookingState_default\<lparr>a_step := Some ''ask_phone''\<rparr>)
              ''+1 (415) 555-2671'')
     = AgentBookingState_default\<lparr>a_phone := Some ''+14155552671'', a_step := Some ''confirm''\<rparr>"
proof -
  have e1: "is_valid_email '' John.Doe@Example.COM ''" by code_simp
  have e2: "lower (strip '' John.Doe@Example.COM '') = ''john.doe@example.com''" by code_simp
  have p1: "is_valid_phone ''+1 (415) 555-2671''" by code_simp
  have p2: "normalize_phone ''+1 (415) 555-2671'' = ''+14155552671''" by code_simp
  have s1: "a_step AgentBookingState_default = Some ''ask_email''"
    by (simp add: AgentBookingState_default_def)
  have s2: "a_step (AgentBookingState_default\<lparr>a_step := Some ''ask_phone''\<rparr>) = Some ''ask_phone''"
    by simp
  show ?thesis
    using normalization_of_email_and_phone [of AgentBookingState_default "'' John.Doe@Example.COM ''"]
      normalization_of_email_and_phone
        [of "AgentBookingState_default\<lparr>a_step := Some ''ask_phone''\<rparr>" "''+1 (415) 555-2671''"]
      e1 e2 p1 p2 s1 s2
    by simp
qed

theorem normalize_phone_inner_plus_counterexample:
  "\<not> digits_after_optional_plus (normalize_phone ''1+2'')"
  by code_simp

subsection \<open>chat.py: the step machine and the commit stage\<close>

lemma step_machine_ask_email_phone:
  "step st = ''ask_email_phone'' \<Longrightarrow>
   fst (step_machine f cfg st ex nts c u) =
     (let st1 = (if email_ok ex \<and> truthy (x_email ex)
                 then st\<lparr>email := Some (lower (strip (str_of (x_email ex))))\<rparr> else st);
          st2 = (if phone_ok ex \<and> truthy (x_phone ex)
                 then st1\<lparr>phone := Some (take 40 (strip (str_of (x_phone ex))))\<rparr> else st1)
      in
      if \<not> truthy (email st2) \<or> \<not> truthy (phone st2) then st2
      else st2\<lparr>step := ''confirm_contact''\<rparr>)"
  by (simp add: step_machine_def Let_def)

lemma step_machine_confirm_contact:
  "step st = ''confirm_contact'' \<Longrightarrow>
   step_machine f cfg st ex nts c u =
     (if c = Some ''no'' then
        (BookingState_default, ''No problem. Please tell me your email and phone number again.'')
      else if c = Some ''yes'' then
        (st\<lparr>step := ''ask_time''\<rparr>,
         ''Great. What date and time would you like to schedule the meeting?'')
      else (st, ''Please reply 'yes' to confirm or 'no' to re-enter your email and phone.''))"
  by (simp add: step_machine_def)

lemma step_machine_ask_time:
  "step st = ''ask_time'' \<Longrightarrow>
   fst (step_machine f cfg st ex nts c u) =
     (if start_ok ex \<and> truthy (x_start_iso ex)
         \<and> parse_iso_datetime f (str_of (x_start_iso ex)) \<noteq> None
      then st\<lparr>start_iso := x_start_iso ex, step := ''ask_title''\<rparr> else st)"
  by (simp add: step_machine_def Let_def split: option.splits)

lemma step_machine_ask_title:
  "step st = ''ask_title'' \<Longrightarrow>
   fst (step_machine f cfg st ex nts c u)
     = st\<lparr>title := Some (let t = strip (py_or (x_title ex) u) in
                           if lower t \<in> set [''skip'', ''no'', ''none''] then DEFAULT_TITLE cfg
                           else if t \<noteq> [] then take 120 t else DEFAULT_TITLE cfg),
          step := ''confirm_all''\<rparr>"
  by (simp add: step_machine_def Let_def)

lemma step_machine_confirm_all:
  "step st = ''confirm_all'' \<Longrightarrow>
   step_machine f cfg st ex nts c u =
     (if c = Some ''no'' then
        (st\<lparr>step := ''ask_time'', start_iso := None\<rparr>,
         ''Okay. Let'' @ apostrophe @ ''s pick a new time. What date and time would you like?'')
      else if c = Some ''yes'' then
        (st, ''Got it '' @ em_dash @ '' creating your calendar event now'' @ ellipsis)
      else (st, ''Please reply 'yes' to create the event or 'no' to change the time.''))"
  by (simp add: step_machine_def)

lemma step_machine_done:
  "step st = ''done'' \<Longrightarrow>
   step_machine f cfg st ex nts c u =
     (st, ''Your event is already created. Click Clear to start a new booking.'')"
  by (simp add: step_machine_def)

lemma step_machine_other:
  "step st \<notin> set [''ask_email_phone'', ''confirm_contact'', ''ask_time'', ''ask_title'',
                  ''confirm_all'', ''done''] \<Longrightarrow>
   step_machine f cfg st ex nts c u = (st, [])"
  by (simp add: step_machine_def)

lemma commit_stage_not_due:
  "\<not> commit_due st2 c \<Longrightarrow> commit_stage f cfg cal st2 c = (st2, [], [])"
  by (simp add: commit_stage_def)

lemma commit_stage_unparsed:
  "commit_due st2 c \<Longrightarrow> parse_iso_datetime f (str_of (start_iso st2)) = None \<Longrightarrow>
   commit_stage f cfg cal st2 c = (st2, [Delta internal_error_text], [])"
  by (simp add: commit_stage_def)

lemma commit_stage_failed:
  "commit_due st2 c \<Longrightarrow> parse_iso_datetime f (str_of (start_iso st2)) = Some dt \<Longrightarrow>
   cal (commit_event cfg st2 dt) = Inl e \<Longrightarrow>
   commit_stage f cfg cal st2 c = (st2, [Delta (failed_text e)], [commit_event cfg st2 dt])"
  by (simp add: commit_stage_def)

lemma commit_stage_created:
  "commit_due st2 c \<Longrightarrow> parse_iso_datetime f (str_of (start_iso st2)) = Some dt \<Longrightarrow>
   cal (commit_event cfg st2 dt) = Inr cr \<Longrightarrow>
   commit_stage f cfg cal st2 c
     = (st2\<lparr>step := ''done''\<rparr>, [Delta (created_text cr st2)], [commit_event cfg st2 dt])"
  by (simp add: commit_stage_def)

lemma chat_stream_no_tokens:
  "chat_stream f cfg w raw False u =
     \<lparr>saved = load_state raw, planned = [], events = [Delta not_connected_text, Done],
      calls = [], raised = None\<rparr>"
  by (simp add: chat_stream_def Let_def)

lemma chat_stream_raised:
  "planner w = Inl e \<Longrightarrow>
   chat_stream f cfg w raw True u =
     \<lparr>saved = load_state raw, planned = [], events = [], calls = [], raised = Some e\<rparr>"
  by (simp add: chat_stream_def Let_def)

lemma chat_stream_turn:
  "planner w = Inr p \<Longrightarrow>
   chat_stream f cfg w raw True u =
     (let ex = plan_extracted p;
          c = resolve_confirm ex (strip u);
          sm = step_machine f cfg (load_state raw) ex (plan_notes p) c (strip u);
          cm = commit_stage f cfg (calendar w) (fst sm) c
      in
      \<lparr>saved = fst cm, planned = snd sm,
       events = map Delta (filter (\<lambda>c. c \<noteq> []) (speaker w (strip u) (fst sm) (snd sm)))
                  @ fst (snd cm) @ [Done],
       calls = snd (snd cm), raised = None\<rparr>)"
  by (simp add: chat_stream_def Let_def split: prod.splits)

lemma step_cases:
  obtains "step st = ''ask_email_phone''" | "step st = ''confirm_contact''"
    | "step st = ''ask_time''" | "step st = ''ask_title''" | "step st = ''confirm_all''"
    | "step st = ''done''"
    | "step st \<noteq> ''ask_email_phone''" "step st \<noteq> ''confirm_contact''"
      "step st \<noteq> ''ask_time''" "step st \<noteq> ''ask_title''" "step st \<noteq> ''confirm_all''"
      "step st \<noteq> ''done''"
  by blast

lemma step_machine_never_done:
  assumes "step (fst (step_machine f cfg st ex nts c u)) = ''done''"
  shows "step st = ''done''"
proof (cases st rule: step_cases)
  case 1
  with assms show ?thesis
    by (simp add: step_machine_ask_email_phone Let_def split: if_splits)
next
  case 2
  with assms show ?thesis
    by (simp add: step_machine_confirm_contact BookingState_default_def split: if_splits)
next
  case 3
  with assms show ?thesis
    by (simp add: step_machine_ask_time split: if_splits)
next
  case 4
  with assms show ?thesis by (simp add: step_machine_ask_title)
next
  case 5
  with assms show ?thesis
    by (simp add: step_machine_confirm_all split: if_splits)
next
  case 6
  then show ?thesis .
next
  case 7
  with assms show ?thesis by (simp add: step_machine_other)
qed

lemma commit_stage_outcomes:
  obtains
    (idle) "commit_stage f cfg cal st2 c = (st2, [], [])"
  | (unparsed) "commit_due st2 c" "commit_stage f cfg cal st2 c = (st2, [Delta internal_error_text], [])"
  | (failed) dt e where "commit_due st2 c"
      "parse_iso_datetime f (str_of (start_iso st2)) = Some dt"
      "cal (commit_event cfg st2 dt) = Inl e"
      "commit_stage f cfg cal st2 c = (st2, [Delta (failed_text e)], [commit_event cfg st2 dt])"
  | (created) dt cr where "commit_due st2 c"
      "parse_iso_datetime f (str_of (start_iso st2)) = Some dt"
      "cal (commit_event cfg st2 dt) = Inr cr"
      "commit_stage f cfg cal st2 c
         = (st2\<lparr>step := ''done''\<rparr>, [Delta (created_text cr st2)], [commit_event cfg st2 dt])"
proof (cases "commit_due st2 c")
  case False
  then show ?thesis using idle by (simp add: commit_stage_not_due)
next
  case due: True
  show ?thesis
  proof (cases "parse_iso_datetime f (str_of (start_iso st2))")
    case None
    with due show ?thesis using unparsed by (simp add: commit_stage_unparsed)
  next
    case (Some dt)
    show ?thesis
    proof (cases "cal (commit_event cfg st2 dt)")
      case (Inl e)
      with due Some show ?thesis using failed by (simp add: commit_stage_failed)
    next
      case (Inr cr)
      with due Some show ?thesis using created by (simp add: commit_stage_created)
    qed
  qed
qed

lemma commit_stage_done_only_created:
  "step (fst (commit_stage f cfg cal st2 c)) = ''done'' \<Longrightarrow>
   step st2 = ''done''
   \<or> (\<exists>ev cr. snd (snd (commit_stage f cfg cal st2 c)) = [ev] \<and> cal ev = Inr cr)"
  by (cases rule: commit_stage_outcomes [of f cfg cal st2 c]) auto

lemma commit_stage_on_failure:
  "snd (snd (commit_stage f cfg cal st2 c)) = [ev] \<Longrightarrow> cal ev = Inl e \<Longrightarrow>
   commit_stage f cfg cal st2 c = (st2, [Delta (failed_text e)], [ev])
   \<and> step st2 = ''confirm_all''"
  by (cases rule: commit_stage_outcomes [of f cfg cal st2 c]) (auto simp: commit_due_def)

lemma commit_stage_on_success:
  "snd (snd (commit_stage f cfg cal st2 c)) = [ev] \<Longrightarrow> cal ev = Inr cr \<Longrightarrow>
   commit_stage f cfg cal st2 c = (st2\<lparr>step := ''done''\<rparr>, [Delta (created_text cr st2)], [ev])"
  by (cases rule: commit_stage_outcomes [of f cfg cal st2 c]) auto

lemma commit_stage_keeps_state:
  "step (fst (commit_stage f cfg cal st2 c)) \<noteq> ''done'' \<Longrightarrow>
   fst (commit_stage f cfg cal st2 c) = st2"
  by (cases rule: commit_stage_outcomes [of f cfg cal st2 c]) auto

lemma commit_stage_calls:
  "commit_due st2 c \<Longrightarrow> parse_iso_datetime f (str_of (start_iso st2)) = Some dt \<Longrightarrow>
   snd (snd (commit_stage f cfg cal st2 c)) = [commit_event cfg st2 dt]"
  by (cases "cal (commit_event cfg st2 dt)") (simp_all add: commit_stage_failed commit_stage_created)

lemma created_text_step: "created_text cr (st\<lparr>step := x\<rparr>) = created_text cr st"
  by (simp add: created_text_def)

lemma created_text_links:
  "(truthy (hangoutLink cr) \<longrightarrow> sublist (str_of (hangoutLink cr)) (created_text cr st))
   \<and> (truthy (htmlLink cr) \<longrightarrow> sublist (str_of (htmlLink cr)) (created_text cr st))"
proof (intro conjI impI)
  assume t: "truthy (hangoutLink cr)"
  have "created_text cr st
          = (''\<newline>\<newline>'' @ check_mark @ '' Event created!\<newline>'' @ ''Meet link: '')
            @ str_of (hangoutLink cr)
            @ (''\<newline>''
               @ (if truthy (htmlLink cr)
                  then ''Calendar link: '' @ str_of (htmlLink cr) @ ''\<newline>'' else [])
               @ ''Invite email sent to: '' @ fmt (email st))"
    using t by (simp add: created_text_def)
  then show "sublist (str_of (hangoutLink cr)) (created_text cr st)"
    by (simp only: sublist_appendI)
next
  assume t: "truthy (htmlLink cr)"
  have "created_text cr st
          = (''\<newline>\<newline>'' @ check_mark @ '' Event created!\<newline>''
             @ (if truthy (hangoutLink cr)
                then ''Meet link: '' @ str_of (hangoutLink cr) @ ''\<newline>'' else [])
             @ ''Calendar link: '')
            @ str_of (htmlLink cr)
            @ (''\<newline>'' @ ''Invite email sent to: '' @ fmt (email st))"
    using t by (simp add: created_text_def)
  then show "sublist (str_of (htmlLink cr)) (created_text cr st)"
    by (simp only: sublist_appendI)
qed

lemma chat_stream_quiet:
  "\<not> tok \<or> (\<exists>e. planner w = Inl e) \<Longrightarrow>
   saved (chat_stream f cfg w raw tok u) = load_state raw
   \<and> calls (chat_stream f cfg w raw tok u) = []"
  by (cases tok) (auto simp: chat_stream_no_tokens chat_stream_raised)

lemma failed_text_reason: "sublist e (failed_text e)"
proof -
  have "failed_text e
          = (backslash_n @ backslash_n @ warning_sign @ '' Failed to create event: '') @ e"
    by (simp add: failed_text_def)
  then show ?thesis by (simp only: sublist_append_leftI)
qed

lemma parse_yes_no_strip: "parse_yes_no (strip u) = parse_yes_no u"
  by (simp add: parse_yes_no_def strip_idem)

lemma handle_user_message_confirm_yes:
  "a_step st = Some ''confirm'' \<Longrightarrow> parse_yes_no u = Some True \<Longrightarrow>
   handle_user_message st u =
     \<lparr>state = st\<lparr>a_step := Some ''done''\<rparr>,
      reply = ''Great '' @ em_dash @ '' creating your meeting now'' @ ellipsis,
      action = Some ''create_meeting''\<rparr>"
  by (simp add: handle_user_message_def Let_def parse_yes_no_strip)

text \<open>
  C1, as the code has it. In \<^verbatim>\<open>chat.py\<close> the saved step becomes \<^verbatim>\<open>done\<close> only in a
  request whose call of the calendar returned; a call that raises leaves the step at
  \<^verbatim>\<open>confirm_all\<close> and the text sent holds its reason; a call that returns sets
  \<^verbatim>\<open>done\<close> and the links it gave are in the text sent. At \<^verbatim>\<open>confirm_all\<close> with a
  resolved yes, the state stays as it was unless the call returned, so that a repeated
  yes calls the calendar again. In \<^verbatim>\<open>agent_state.py\<close> a yes at \<^verbatim>\<open>confirm\<close> returns the
  state with step \<^verbatim>\<open>done\<close> together with the action \<^verbatim>\<open>create_meeting\<close>, before any
  commit.
\<close>

theorem commit_before_done:
  fixes f cfg w raw tok u st p ast v
  defines "r \<equiv> chat_stream f cfg w raw tok u"
  shows
  "(step (saved r) = ''done'' \<longrightarrow>
      step (load_state raw) = ''done'' \<or> (\<exists>ev cr. calls r = [ev] \<and> calendar w ev = Inr cr))
   \<and> (\<forall>ev e. calls r = [ev] \<and> calendar w ev = Inl e \<longrightarrow>
         step (saved r) = ''confirm_all'' \<and> Delta (failed_text e) \<in> set (events r)
         \<and> sublist e (failed_text e))
   \<and> (\<forall>ev cr. calls r = [ev] \<and> calendar w ev = Inr cr \<longrightarrow>
         step (saved r) = ''done'' \<and> Delta (created_text cr (saved r)) \<in> set (events r)
         \<and> (truthy (hangoutLink cr) \<longrightarrow>
                sublist (str_of (hangoutLink cr)) (created_text cr (saved r)))
         \<and> (truthy (htmlLink cr) \<longrightarrow>
                sublist (str_of (htmlLink cr)) (created_text cr (saved r))))
   \<and> (raw = Some st \<and> step st = ''confirm_all'' \<and> tok \<and> planner w = Inr p
        \<and> resolve_confirm (plan_extracted p) (strip u) = Some ''yes'' \<longrightarrow>
        (step (saved r) \<noteq> ''done'' \<longrightarrow> saved r = st)
        \<and> (\<forall>dt. commit_due st (Some ''yes'')
                  \<and> parse_iso_datetime f (str_of (start_iso st)) = Some dt \<longrightarrow>
                calls r = [commit_event cfg st dt]))
   \<and> (a_step ast = Some ''confirm'' \<and> parse_yes_no v = Some True \<longrightarrow>
        handle_user_message ast v =
          \<lparr>state = ast\<lparr>a_step := Some ''done''\<rparr>,
           reply = ''Great '' @ em_dash @ '' creating your meeting now'' @ ellipsis,
           action = Some ''create_meeting''\<rparr>)"
proof (cases "tok \<and> (\<exists>p. planner w = Inr p)")
  case False
  then have "\<not> tok \<or> (\<exists>e. planner w = Inl e)"
    by (cases "planner w") auto
  then have q: "saved r = load_state raw" "calls r = []"
    unfolding r_def using chat_stream_quiet [of tok w f cfg raw u] by auto
  from False have n: "\<not> (tok \<and> planner w = Inr p)" by auto
  show ?thesis using q n by (auto simp: handle_user_message_confirm_yes)
next
  case True
  then obtain p' where tok: tok and pl: "planner w = Inr p'" by auto
  define c where "c = resolve_confirm (plan_extracted p') (strip u)"
  define sm where
    "sm = step_machine f cfg (load_state raw) (plan_extracted p') (plan_notes p') c (strip u)"
  define cm where "cm = commit_stage f cfg (calendar w) (fst sm) c"
  have sv: "saved r = fst cm" and cl: "calls r = snd (snd cm)"
    and ev: "events r = map Delta (filter (\<lambda>c. c \<noteq> []) (speaker w (strip u) (fst sm) (snd sm)))
                          @ fst (snd cm) @ [Done]"
    unfolding r_def using tok pl
    by (simp_all add: chat_stream_turn Let_def c_def sm_def cm_def)
  have a: "step (saved r) = ''done'' \<longrightarrow>
      step (load_state raw) = ''done'' \<or> (\<exists>ev cr. calls r = [ev] \<and> calendar w ev = Inr cr)"
  proof
    assume "step (saved r) = ''done''"
    then have "step (fst sm) = ''done'' \<or> (\<exists>ev cr. snd (snd cm) = [ev] \<and> calendar w ev = Inr cr)"
      unfolding sv cm_def by (rule commit_stage_done_only_created)
    then show "step (load_state raw) = ''done'' \<or> (\<exists>ev cr. calls r = [ev] \<and> calendar w ev = Inr cr)"
      unfolding cl sm_def using step_machine_never_done by blast
  qed
  have b: "\<forall>ev e. calls r = [ev] \<and> calendar w ev = Inl e \<longrightarrow>
         step (saved r) = ''confirm_all'' \<and> Delta (failed_text e) \<in> set (events r)
         \<and> sublist e (failed_text e)"
  proof (intro allI impI)
    fix ev e assume "calls r = [ev] \<and> calendar w ev = Inl e"
    then have "cm = (fst sm, [Delta (failed_text e)], [ev]) \<and> step (fst sm) = ''confirm_all''"
      unfolding cl cm_def using commit_stage_on_failure by blast
    then show "step (saved r) = ''confirm_all'' \<and> Delta (failed_text e) \<in> set (events r)
         \<and> sublist e (failed_text e)"
      unfolding sv ev by (simp add: failed_text_reason)
  qed
  have d: "\<forall>ev cr. calls r = [ev] \<and> calendar w ev = Inr cr \<longrightarrow>
         step (saved r) = ''done'' \<and> Delta (created_text cr (saved r)) \<in> set (events r)
         \<and> (truthy (hangoutLink cr) \<longrightarrow>
                sublist (str_of (hangoutLink cr)) (created_text cr (saved r)))
         \<and> (truthy (htmlLink cr) \<longrightarrow>
                sublist (str_of (htmlLink cr)) (created_text cr (saved r)))"
  proof (intro allI impI)
    fix ev cr assume "calls r = [ev] \<and> calendar w ev = Inr cr"
    then have "cm = ((fst sm)\<lparr>step := ''done''\<rparr>, [Delta (created_text cr (fst sm))], [ev])"
      unfolding cl cm_def using commit_stage_on_success by blast
    then have "step (saved r) = ''done'' \<and> Delta (created_text cr (saved r)) \<in> set (events r)"
      unfolding sv ev by (simp add: created_text_step)
    then show "step (saved r) = ''done'' \<and> Delta (created_text cr (saved r)) \<in> set (events r)
         \<and> (truthy (hangoutLink cr) \<longrightarrow>
                sublist (str_of (hangoutLink cr)) (created_text cr (saved r)))
         \<and> (truthy (htmlLink cr) \<longrightarrow>
                sublist (str_of (htmlLink cr)) (created_text cr (saved r)))"
      using created_text_links [of cr "saved r"] by simp
  qed
  have e: "raw = Some st \<and> step st = ''confirm_all'' \<and> tok \<and> planner w = Inr p
        \<and> resolve_confirm (plan_extracted p) (strip u) = Some ''yes'' \<longrightarrow>
        (step (saved r) \<noteq> ''done'' \<longrightarrow> saved r = st)
        \<and> (\<forall>dt. commit_due st (Some ''yes'')
                  \<and> parse_iso_datetime f (str_of (start_iso st)) = Some dt \<longrightarrow>
                calls r = [commit_event cfg st dt])"
  proof (intro impI)
    assume h: "raw = Some st \<and> step st = ''confirm_all'' \<and> tok \<and> planner w = Inr p
        \<and> resolve_confirm (plan_extracted p) (strip u) = Some ''yes''"
    with pl have pp: "p' = p" by simp
    from h pp have cy: "c = Some ''yes''" by (simp add: c_def)
    from h have "fst sm = st"
      unfolding sm_def cy by (simp add: load_state_def step_machine_confirm_all)
    then have cm': "cm = commit_stage f cfg (calendar w) st (Some ''yes'')"
      by (simp add: cm_def cy)
    show "(step (saved r) \<noteq> ''done'' \<longrightarrow> saved r = st)
        \<and> (\<forall>dt. commit_due st (Some ''yes'')
                  \<and> parse_iso_datetime f (str_of (start_iso st)) = Some dt \<longrightarrow>
                calls r = [commit_event cfg st dt])"
      unfolding sv cl cm' using commit_stage_keeps_state commit_stage_calls by blast
  qed
  have g: "a_step ast = Some ''confirm'' \<and> parse_yes_no v = Some True \<longrightarrow>
        handle_user_message ast v =
          \<lparr>state = ast\<lparr>a_step := Some ''done''\<rparr>,
           reply = ''Great '' @ em_dash @ '' creating your meeting now'' @ ellipsis,
           action = Some ''create_meeting''\<rparr>"
    by (simp add: handle_user_message_confirm_yes)
  from a b d e g show ?thesis by (intro conjI)
qed

theorem commit_before_done_witness:
  "saved (chat_stream fromisoformat_seconds example_config
            (example_world (example_plan no_extracted) (Inl ''quota exceeded''))
            (Some example_booking) True ''yes'') = example_booking
   \<and> Delta (failed_text ''quota exceeded'')
       \<in> set (events (chat_stream fromisoformat_seconds example_config
            (example_world (example_plan no_extracted) (Inl ''quota exceeded''))
            (Some example_booking) True ''yes''))
   \<and> sublist ''quota exceeded'' (failed_text ''quota exceeded'')
   \<and> step (saved (chat_stream fromisoformat_seconds example_config
            (example_world (example_plan no_extracted) (Inr example_links))
            (Some example_booking) True ''yes'')) = ''done''
   \<and> state (handle_user_message example_agent_confirm ''yes'')
       = example_agent_confirm\<lparr>a_step := Some ''done''\<rparr>
   \<and> action (handle_user_message example_agent_confirm ''yes'') = Some ''create_meeting''"
proof -
  let ?dt = "\<lparr>year = 2026, month = 2, day = 16, hour = 14, minute = 0, second = 0,
              utcoffset = Some (- 480)\<rparr>"
  let ?ev = "commit_event example_config example_booking ?dt"
  have s: "step example_booking = ''confirm_all''" by (simp add: example_booking_def)
  have y: "resolve_confirm (plan_extracted (example_plan no_extracted)) (strip ''yes'') = Some ''yes''"
    by code_simp
  have d: "commit_due example_booking (Some ''yes'')" by code_simp
  have p: "parse_iso_datetime fromisoformat_seconds (str_of (start_iso example_booking)) = Some ?dt"
    by code_simp
  have pl: "\<And>c. planner (example_world (example_plan no_extracted) c) = Inr (example_plan no_extracted)"
    by (simp add: example_world_def)
  have ca: "\<And>c ev. calendar (example_world (example_plan no_extracted) c) ev = c"
    by (simp add: example_world_def)
  note f = commit_before_done
      [of fromisoformat_seconds example_config
          "example_world (example_plan no_extracted) (Inl ''quota exceeded'')"
          "Some example_booking" True "''yes''" example_booking "example_plan no_extracted"
          example_agent_confirm "''yes''"]
  note g = commit_before_done
      [of fromisoformat_seconds example_config
          "example_world (example_plan no_extracted) (Inr example_links)"
          "Some example_booking" True "''yes''" example_booking "example_plan no_extracted"
          example_agent_confirm "''yes''"]
  have cf: "calls (chat_stream fromisoformat_seconds example_config
            (example_world (example_plan no_extracted) (Inl ''quota exceeded''))
            (Some example_booking) True ''yes'') = [?ev]"
    using f s y d p pl by blast
  have cg: "calls (chat_stream fromisoformat_seconds example_config
            (example_world (example_plan no_extracted) (Inr example_links))
            (Some example_booking) True ''yes'') = [?ev]"
    using g s y d p pl by blast
  have 1: "step (saved (chat_stream fromisoformat_seconds example_config
            (example_world (example_plan no_extracted) (Inl ''quota exceeded''))
            (Some example_booking) True ''yes'')) = ''confirm_all''
     \<and> Delta (failed_text ''quota exceeded'')
       \<in> set (events (chat_stream fromisoformat_seconds example_config
            (example_world (example_plan no_extracted) (Inl ''quota exceeded''))
            (Some example_booking) True ''yes''))
     \<and> sublist ''quota exceeded'' (failed_text ''quota exceeded'')"
    using f cf ca by blast
  then have 2: "saved (chat_stream fromisoformat_seconds example_config
            (example_world (example_plan no_extracted) (Inl ''quota exceeded''))
            (Some example_booking) True ''yes'') = example_booking"
    using f s y pl by simp
  have 3: "step (saved (chat_stream fromisoformat_seconds example_config
            (example_world (example_plan no_extracted) (Inr example_links))
            (Some example_booking) True ''yes'')) = ''done''"
    using g cg ca by blast
  have ac: "a_step example_agent_confirm = Some ''confirm''"
    by (simp add: example_agent_confirm_def)
  have ay: "parse_yes_no ''yes'' = Some True" by code_simp
  have 4: "handle_user_message example_agent_confirm ''yes'' =
          \<lparr>state = example_agent_confirm\<lparr>a_step := Some ''done''\<rparr>,
           reply = ''Great '' @ em_dash @ '' creating your meeting now'' @ ellipsis,
           action = Some ''create_meeting''\<rparr>"
    using f ac ay by blast
  from 1 2 3 4 show ?thesis by simp
qed

theorem agent_done_before_commit_counterexample:
  "handle_user_message example_agent_confirm ''yes'' =
     \<lparr>state = example_agent_confirm\<lparr>a_step := Some ''done''\<rparr>,
      reply = ''Great '' @ em_dash @ '' creating your meeting now'' @ ellipsis,
      action = Some ''create_meeting''\<rparr>"
proof -
  have "a_step example_agent_confirm = Some ''confirm''"
    by (simp add: example_agent_confirm_def)
  moreover have "parse_yes_no ''yes'' = Some True" by code_simp
  ultimately show ?thesis by (rule handle_user_message_confirm_yes)
qed

lemma commit_due_step: "commit_due st2 c \<Longrightarrow> step st2 = ''confirm_all''"
  by (simp add: commit_due_def)

lemma commit_stage_fields:
  "email (fst (commit_stage f cfg cal st2 c)) = email st2
   \<and> phone (fst (commit_stage f cfg cal st2 c)) = phone st2
   \<and> start_iso (fst (commit_stage f cfg cal st2 c)) = start_iso st2
   \<and> title (fst (commit_stage f cfg cal st2 c)) = title st2"
  by (cases rule: commit_stage_outcomes [of f cfg cal st2 c]) auto

lemma chat_stream_saved:
  "tok \<Longrightarrow> planner w = Inr p \<Longrightarrow>
   saved (chat_stream f cfg w raw tok u)
     = fst (commit_stage f cfg (calendar w)
              (fst (step_machine f cfg (load_state raw) (plan_extracted p) (plan_notes p)
                      (resolve_confirm (plan_extracted p) (strip u)) (strip u)))
              (resolve_confirm (plan_extracted p) (strip u)))"
  by (simp add: chat_stream_turn Let_def)

lemma chat_stream_planned:
  "tok \<Longrightarrow> planner w = Inr p \<Longrightarrow>
   planned (chat_stream f cfg w raw tok u)
     = snd (step_machine f cfg (load_state raw) (plan_extracted p) (plan_notes p)
              (resolve_confirm (plan_extracted p) (strip u)) (strip u))"
  by (simp add: chat_stream_turn Let_def)

lemma chat_stream_calls:
  "tok \<Longrightarrow> planner w = Inr p \<Longrightarrow>
   calls (chat_stream f cfg w raw tok u)
     = snd (snd (commit_stage f cfg (calendar w)
              (fst (step_machine f cfg (load_state raw) (plan_extracted p) (plan_notes p)
                      (resolve_confirm (plan_extracted p) (strip u)) (strip u)))
              (resolve_confirm (plan_extracted p) (strip u))))"
  by (simp add: chat_stream_turn Let_def)

lemma chat_stream_done:
  assumes "step bs = ''done''"
  shows "saved (chat_stream f cfg w (Some bs) tok u) = bs
         \<and> calls (chat_stream f cfg w (Some bs) tok u) = []"
proof (cases "tok \<and> (\<exists>p. planner w = Inr p)")
  case False
  then have "\<not> tok \<or> (\<exists>e. planner w = Inl e)" by (cases "planner w") auto
  then show ?thesis
    using chat_stream_quiet [of tok w f cfg "Some bs" u] by (simp add: load_state_def)
next
  case True
  then obtain p where t: tok and p: "planner w = Inr p" by auto
  have nd: "\<And>c. \<not> commit_due bs c" using assms by (simp add: commit_due_def)
  show ?thesis
    using assms
    by (simp add: chat_stream_saved [OF t p] chat_stream_calls [OF t p] load_state_def
        step_machine_done commit_stage_not_due [OF nd])
qed

text \<open>
  C8. Once the step is \<^verbatim>\<open>done\<close> the session is terminal. In \<^verbatim>\<open>agent_state.py\<close> every
  text gets the fixed reply, no action, and the state as it was. In \<^verbatim>\<open>chat.py\<close> the step
  machine plans the fixed text and keeps the state, and the request saves the state as
  it was and calls no calendar.
\<close>

theorem done_is_terminal:
  "(a_step st = Some ''done'' \<longrightarrow>
      handle_user_message st u =
        \<lparr>state = st, reply = ''This session is already completed. Clear to start a new one.'',
         action = None\<rparr>)
   \<and> (step bs = ''done'' \<longrightarrow>
        step_machine f cfg bs ex nts c v
          = (bs, ''Your event is already created. Click Clear to start a new booking.'')
        \<and> saved (chat_stream f cfg w (Some bs) tok v) = bs
        \<and> calls (chat_stream f cfg w (Some bs) tok v) = []
        \<and> (tok \<and> planner w = Inr p \<longrightarrow>
             planned (chat_stream f cfg w (Some bs) tok v)
               = ''Your event is already created. Click Clear to start a new booking.''))"
proof (intro conjI impI)
  assume "a_step st = Some ''done''"
  then show "handle_user_message st u =
        \<lparr>state = st, reply = ''This session is already completed. Clear to start a new one.'',
         action = None\<rparr>"
    by (rule handle_user_message_done)
next
  assume d: "step bs = ''done''"
  then show "step_machine f cfg bs ex nts c v
          = (bs, ''Your event is already created. Click Clear to start a new booking.'')"
    by (rule step_machine_done)
  from d show "saved (chat_stream f cfg w (Some bs) tok v) = bs"
    by (simp add: chat_stream_done)
  from d show "calls (chat_stream f cfg w (Some bs) tok v) = []"
    by (simp add: chat_stream_done)
  assume "tok \<and> planner w = Inr p"
  with d show "planned (chat_stream f cfg w (Some bs) tok v)
               = ''Your event is already created. Click Clear to start a new booking.''"
    by (simp add: chat_stream_planned load_state_def step_machine_done)
qed

theorem done_is_terminal_witness:
  "handle_user_message (AgentBookingState_default\<lparr>a_step := Some ''done''\<rparr>) ''hello again''
     = \<lparr>state = AgentBookingState_default\<lparr>a_step := Some ''done''\<rparr>,
        reply = ''This session is already completed. Clear to start a new one.'', action = None\<rparr>
   \<and> saved (chat_stream fromisoformat_seconds example_config
              (example_world (example_plan no_extracted) (Inr example_links))
              (Some (example_booking\<lparr>step := ''done''\<rparr>)) True ''yes'')
       = example_booking\<lparr>step := ''done''\<rparr>
   \<and> planned (chat_stream fromisoformat_seconds example_config
              (example_world (example_plan no_extracted) (Inr example_links))
              (Some (example_booking\<lparr>step := ''done''\<rparr>)) True ''yes'')
       = ''Your event is already created. Click Clear to start a new booking.''"
  using done_is_terminal
          [of "AgentBookingState_default\<lparr>a_step := Some ''done''\<rparr>" "''hello again''"
              "example_booking\<lparr>step := ''done''\<rparr>" fromisoformat_seconds example_config
              no_extracted no_notes None "''yes''"
              "example_world (example_plan no_extracted) (Inr example_links)" True
              "example_plan no_extracted"]
  by (simp add: example_world_def)

text \<open>
  C5, as the code has it. A text that \<^verbatim>\<open>json.loads\<close> rejects gives the fallback: no
  field, every flag false, every reason \<^verbatim>\<open>parse_error\<close>. A text it reads is returned as
  read. What the call of the model raises, a timeout among them, is raised to the caller.
\<close>

theorem extraction_fallback:
  "(json_loads t = None \<longrightarrow>
      llm_extract_and_validate json_loads (Inr t) = Inr safe_fallback)
   \<and> (json_loads t = Some p \<longrightarrow> llm_extract_and_validate json_loads (Inr t) = Inr p)
   \<and> llm_extract_and_validate json_loads (Inl e) = Inl e
   \<and> plan_extracted safe_fallback
       = \<lparr>x_email = None, email_ok = False, x_phone = None, phone_ok = False,
          x_start_iso = None, start_ok = False, x_title = None, x_confirm = None\<rparr>
   \<and> plan_notes safe_fallback
       = \<lparr>email_reason = Some ''parse_error'', phone_reason = Some ''parse_error'',
          time_reason = Some ''parse_error''\<rparr>"
  by (simp add: llm_extract_and_validate_def safe_fallback_def plan_extracted_def
      plan_notes_def no_extracted_def)

theorem extraction_fallback_witness:
  "llm_extract_and_validate (\<lambda>t. if t = ''{}'' then Some (example_plan no_extracted) else None)
      (Inr ''not json'') = Inr safe_fallback
   \<and> llm_extract_and_validate (\<lambda>t. if t = ''{}'' then Some (example_plan no_extracted) else None)
      (Inr ''{}'') = Inr (example_plan no_extracted)"
  using extraction_fallback
          [of "\<lambda>t. if t = ''{}'' then Some (example_plan no_extracted) else None" "''not json''"]
        extraction_fallback
          [of "\<lambda>t. if t = ''{}'' then Some (example_plan no_extracted) else None" "''{}''"
              "example_plan no_extracted"]
  by simp

theorem extraction_call_raises_counterexample:
  "llm_extract_and_validate (\<lambda>t. None) (Inl ''timeout'') = Inl ''timeout''"
  by (simp add: llm_extract_and_validate_def)

lemma is_no_not_yes: "is_no u \<Longrightarrow> \<not> is_yes u"
  by (auto simp: is_yes_def is_no_def)

lemma is_yes_strip: "is_yes (strip u) = is_yes u"
  by (simp add: is_yes_def strip_idem)

lemma is_no_strip: "is_no (strip u) = is_no u"
  by (simp add: is_no_def strip_idem)

lemma resolve_confirm_yes: "is_yes u \<Longrightarrow> resolve_confirm ex u = Some ''yes''"
  by (simp add: resolve_confirm_def)

lemma resolve_confirm_no: "is_no u \<Longrightarrow> resolve_confirm ex u = Some ''no''"
  by (simp add: resolve_confirm_def is_no_not_yes)

lemma resolve_confirm_other:
  "\<not> is_yes u \<Longrightarrow> \<not> is_no u \<Longrightarrow> resolve_confirm ex u = x_confirm ex"
  by (simp add: resolve_confirm_def)

lemma default_not_due: "\<not> commit_due BookingState_default c"
  by (simp add: commit_due_def BookingState_default_def)

lemma chat_stream_confirm_contact_no:
  assumes "step st = ''confirm_contact''" tok "planner w = Inr p"
    "resolve_confirm (plan_extracted p) (strip u) = Some ''no''"
  shows "saved (chat_stream f cfg w (Some st) tok u) = BookingState_default"
  using assms
  by (simp add: chat_stream_saved load_state_def step_machine_confirm_contact
      commit_stage_not_due [OF default_not_due])

lemma chat_stream_confirm_contact_yes:
  assumes "step st = ''confirm_contact''" tok "planner w = Inr p"
    "resolve_confirm (plan_extracted p) (strip u) = Some ''yes''"
  shows "saved (chat_stream f cfg w (Some st) tok u) = st\<lparr>step := ''ask_time''\<rparr>"
proof -
  have "\<not> commit_due (st\<lparr>step := ''ask_time''\<rparr>) (Some ''yes'')"
    by (simp add: commit_due_def)
  then show ?thesis
    using assms
    by (simp add: chat_stream_saved load_state_def step_machine_confirm_contact
        commit_stage_not_due)
qed

text \<open>
  C2, as the code has it. A text that, trimmed and lowercased, is one of the tokens of
  \<^verbatim>\<open>_is_yes\<close> or of \<^verbatim>\<open>_is_no\<close> decides the confirmation whatever the planner inferred;
  for every other text the value of the planner stands. At \<^verbatim>\<open>confirm_contact\<close> a no so
  resolved gives the default state: step \<^verbatim>\<open>ask_email_phone\<close> and no field; a yes moves to
  \<^verbatim>\<open>ask_time\<close>.
\<close>

theorem explicit_token_wins:
  "is_yes u = (lower (strip u)
                 \<in> set [''yes'', ''y'', ''yeah'', ''yep'', ''confirm'', ''ok'', ''okay'', ''sure''])
   \<and> is_no u = (lower (strip u) \<in> set [''no'', ''n'', ''nope'', ''cancel'', ''restart''])
   \<and> (is_yes u \<longrightarrow> resolve_confirm ex u = Some ''yes'')
   \<and> (is_no u \<longrightarrow> resolve_confirm ex u = Some ''no'')
   \<and> (\<not> is_yes u \<and> \<not> is_no u \<longrightarrow> resolve_confirm ex u = x_confirm ex)
   \<and> (step st = ''confirm_contact'' \<and> tok \<and> planner w = Inr p \<and> is_no u \<longrightarrow>
        saved (chat_stream f cfg w (Some st) tok u) = BookingState_default)
   \<and> (step st = ''confirm_contact'' \<and> tok \<and> planner w = Inr p \<and> is_yes u \<longrightarrow>
        saved (chat_stream f cfg w (Some st) tok u) = st\<lparr>step := ''ask_time''\<rparr>)"
proof (intro conjI impI)
  show "is_yes u = (lower (strip u)
                 \<in> set [''yes'', ''y'', ''yeah'', ''yep'', ''confirm'', ''ok'', ''okay'', ''sure''])"
    by (simp only: is_yes_def)
  show "is_no u = (lower (strip u) \<in> set [''no'', ''n'', ''nope'', ''cancel'', ''restart''])"
    by (simp only: is_no_def)
next
  assume "is_yes u" then show "resolve_confirm ex u = Some ''yes''"
    by (rule resolve_confirm_yes)
next
  assume "is_no u" then show "resolve_confirm ex u = Some ''no''"
    by (rule resolve_confirm_no)
next
  assume "\<not> is_yes u \<and> \<not> is_no u" then show "resolve_confirm ex u = x_confirm ex"
    by (simp add: resolve_confirm_other)
next
  assume a: "step st = ''confirm_contact'' \<and> tok \<and> planner w = Inr p \<and> is_no u"
  then have "resolve_confirm (plan_extracted p) (strip u) = Some ''no''"
    by (simp add: resolve_confirm_no is_no_strip)
  with a show "saved (chat_stream f cfg w (Some st) tok u) = BookingState_default"
    by (simp add: chat_stream_confirm_contact_no)
next
  assume a: "step st = ''confirm_contact'' \<and> tok \<and> planner w = Inr p \<and> is_yes u"
  then have "resolve_confirm (plan_extracted p) (strip u) = Some ''yes''"
    by (simp add: resolve_confirm_yes is_yes_strip)
  with a show "saved (chat_stream f cfg w (Some st) tok u) = st\<lparr>step := ''ask_time''\<rparr>"
    by (simp add: chat_stream_confirm_contact_yes)
qed

theorem explicit_token_wins_witness:
  "saved (chat_stream fromisoformat_seconds example_config
            (example_world (example_plan (no_extracted\<lparr>x_confirm := Some ''yes''\<rparr>)) (Inl []))
            (Some example_contact) True '' No '') = BookingState_default
   \<and> saved (chat_stream fromisoformat_seconds example_config
            (example_world (example_plan (no_extracted\<lparr>x_confirm := Some ''no''\<rparr>)) (Inl []))
            (Some example_contact) True ''OK'') = example_contact\<lparr>step := ''ask_time''\<rparr>"
proof -
  have n: "is_no '' No ''" by code_simp
  have y: "is_yes ''OK''" by code_simp
  have s: "step example_contact = ''confirm_contact''" by (simp add: example_contact_def)
  show ?thesis
    using explicit_token_wins
            [of "'' No ''" no_extracted example_contact True
                "example_world (example_plan (no_extracted\<lparr>x_confirm := Some ''yes''\<rparr>)) (Inl [])"
                "example_plan (no_extracted\<lparr>x_confirm := Some ''yes''\<rparr>)"
                fromisoformat_seconds example_config]
          explicit_token_wins
            [of "''OK''" no_extracted example_contact True
                "example_world (example_plan (no_extracted\<lparr>x_confirm := Some ''no''\<rparr>)) (Inl [])"
                "example_plan (no_extracted\<lparr>x_confirm := Some ''no''\<rparr>)"
                fromisoformat_seconds example_config]
          n y s
    by (simp add: example_world_def)
qed

theorem no_thanks_counterexample:
  "saved (chat_stream fromisoformat_seconds example_config
            (example_world (example_plan (no_extracted\<lparr>x_confirm := Some ''yes''\<rparr>)) (Inl []))
            (Some example_contact) True ''no thanks'') = example_contact\<lparr>step := ''ask_time''\<rparr>"
proof -
  have "resolve_confirm (plan_extracted (example_plan (no_extracted\<lparr>x_confirm := Some ''yes''\<rparr>)))
          (strip ''no thanks'') = Some ''yes''"
    by code_simp
  then show ?thesis
    by (simp add: chat_stream_confirm_contact_yes example_contact_def example_world_def)
qed

lemma step_machine_contact_frame:
  assumes "step st \<noteq> ''ask_email_phone''"
    and "\<not> (step st = ''confirm_contact'' \<and> c = Some ''no'')"
  shows "email (fst (step_machine f cfg st ex nts c u)) = email st
         \<and> phone (fst (step_machine f cfg st ex nts c u)) = phone st"
proof (cases st rule: step_cases)
  case 1
  with assms show ?thesis by simp
next
  case 2
  with assms show ?thesis by (simp add: step_machine_confirm_contact)
next
  case 3
  then show ?thesis by (simp add: step_machine_ask_time)
next
  case 4
  then show ?thesis by (simp add: step_machine_ask_title)
next
  case 5
  then show ?thesis by (simp add: step_machine_confirm_all)
next
  case 6
  then show ?thesis by (simp add: step_machine_done)
next
  case 7
  then show ?thesis by (simp add: step_machine_other)
qed

lemma step_machine_contact_write:
  assumes "step st = ''ask_email_phone''"
  shows "email (fst (step_machine f cfg st ex nts c u))
           = (if email_ok ex \<and> truthy (x_email ex)
              then Some (lower (strip (str_of (x_email ex)))) else email st)
         \<and> phone (fst (step_machine f cfg st ex nts c u))
           = (if phone_ok ex \<and> truthy (x_phone ex)
              then Some (take 40 (strip (str_of (x_phone ex)))) else phone st)"
  using assms
  by (cases "email_ok ex"; cases "truthy (x_email ex)"; cases "phone_ok ex";
      cases "truthy (x_phone ex)")
     (simp_all add: step_machine_ask_email_phone Let_def)

lemma chat_stream_fields:
  "tok \<Longrightarrow> planner w = Inr p \<Longrightarrow>
   email (saved (chat_stream f cfg w raw tok u))
     = email (fst (step_machine f cfg (load_state raw) (plan_extracted p) (plan_notes p)
                     (resolve_confirm (plan_extracted p) (strip u)) (strip u)))
   \<and> phone (saved (chat_stream f cfg w raw tok u))
     = phone (fst (step_machine f cfg (load_state raw) (plan_extracted p) (plan_notes p)
                     (resolve_confirm (plan_extracted p) (strip u)) (strip u)))
   \<and> start_iso (saved (chat_stream f cfg w raw tok u))
     = start_iso (fst (step_machine f cfg (load_state raw) (plan_extracted p) (plan_notes p)
                     (resolve_confirm (plan_extracted p) (strip u)) (strip u)))"
  by (simp add: chat_stream_saved commit_stage_fields)

text \<open>
  C3, as the code has it. At \<^verbatim>\<open>ask_email_phone\<close> a field that the planner marked
  valid, with a value that is not blank, is written (trimmed, the email lowercased, the
  phone cut to 40 characters), and a field that it did not mark valid, or for which it
  gave no value, keeps what the state held. At every other step the planner's email and
  phone are not written, whatever its flags, and both keep what the state held, but for
  a no at \<^verbatim>\<open>confirm_contact\<close>, which starts the booking again.
\<close>

theorem contact_fields_written_on_flag:
  fixes f cfg w raw tok u
  defines "r \<equiv> chat_stream f cfg w raw tok u"
    and "st \<equiv> load_state raw"
  shows
  "(tok \<and> planner w = Inr p \<and> step st = ''ask_email_phone'' \<longrightarrow>
      (email_ok (plan_extracted p) \<and> truthy (x_email (plan_extracted p))
         \<and> strip (str_of (x_email (plan_extracted p))) \<noteq> [] \<longrightarrow>
       email (saved r) = Some (lower (strip (str_of (x_email (plan_extracted p))))))
      \<and> (\<not> (email_ok (plan_extracted p) \<and> truthy (x_email (plan_extracted p))) \<longrightarrow>
         email (saved r) = email st)
      \<and> (phone_ok (plan_extracted p) \<and> truthy (x_phone (plan_extracted p))
         \<and> strip (str_of (x_phone (plan_extracted p))) \<noteq> [] \<longrightarrow>
       phone (saved r) = Some (take 40 (strip (str_of (x_phone (plan_extracted p))))))
      \<and> (\<not> (phone_ok (plan_extracted p) \<and> truthy (x_phone (plan_extracted p))) \<longrightarrow>
         phone (saved r) = phone st))
   \<and> (\<not> (tok \<and> (\<exists>q. planner w = Inr q
                \<and> (step st = ''ask_email_phone''
                    \<or> (step st = ''confirm_contact''
                        \<and> resolve_confirm (plan_extracted q) (strip u) = Some ''no'')))) \<longrightarrow>
        email (saved r) = email st \<and> phone (saved r) = phone st)"
proof -
  have a: "tok \<and> planner w = Inr p \<and> step st = ''ask_email_phone'' \<longrightarrow>
      (email_ok (plan_extracted p) \<and> truthy (x_email (plan_extracted p))
         \<and> strip (str_of (x_email (plan_extracted p))) \<noteq> [] \<longrightarrow>
       email (saved r) = Some (lower (strip (str_of (x_email (plan_extracted p))))))
      \<and> (\<not> (email_ok (plan_extracted p) \<and> truthy (x_email (plan_extracted p))) \<longrightarrow>
         email (saved r) = email st)
      \<and> (phone_ok (plan_extracted p) \<and> truthy (x_phone (plan_extracted p))
         \<and> strip (str_of (x_phone (plan_extracted p))) \<noteq> [] \<longrightarrow>
       phone (saved r) = Some (take 40 (strip (str_of (x_phone (plan_extracted p))))))
      \<and> (\<not> (phone_ok (plan_extracted p) \<and> truthy (x_phone (plan_extracted p))) \<longrightarrow>
         phone (saved r) = phone st)"
  proof
    assume h: "tok \<and> planner w = Inr p \<and> step st = ''ask_email_phone''"
    then have t: tok and q: "planner w = Inr p" and s: "step (load_state raw) = ''ask_email_phone''"
      by (simp_all add: st_def)
    have e: "email (saved r)
        = (if email_ok (plan_extracted p) \<and> truthy (x_email (plan_extracted p))
           then Some (lower (strip (str_of (x_email (plan_extracted p))))) else email st)"
      and ph: "phone (saved r)
        = (if phone_ok (plan_extracted p) \<and> truthy (x_phone (plan_extracted p))
           then Some (take 40 (strip (str_of (x_phone (plan_extracted p))))) else phone st)"
      unfolding r_def st_def
      using chat_stream_fields [OF t q, of f cfg raw u]
        step_machine_contact_write [OF s, of f cfg "plan_extracted p" "plan_notes p"
          "resolve_confirm (plan_extracted p) (strip u)" "strip u"]
      by simp_all
    show "(email_ok (plan_extracted p) \<and> truthy (x_email (plan_extracted p))
         \<and> strip (str_of (x_email (plan_extracted p))) \<noteq> [] \<longrightarrow>
       email (saved r) = Some (lower (strip (str_of (x_email (plan_extracted p))))))
      \<and> (\<not> (email_ok (plan_extracted p) \<and> truthy (x_email (plan_extracted p))) \<longrightarrow>
         email (saved r) = email st)
      \<and> (phone_ok (plan_extracted p) \<and> truthy (x_phone (plan_extracted p))
         \<and> strip (str_of (x_phone (plan_extracted p))) \<noteq> [] \<longrightarrow>
       phone (saved r) = Some (take 40 (strip (str_of (x_phone (plan_extracted p))))))
      \<and> (\<not> (phone_ok (plan_extracted p) \<and> truthy (x_phone (plan_extracted p))) \<longrightarrow>
         phone (saved r) = phone st)"
      unfolding e ph by simp
  qed
  have b: "\<not> (tok \<and> (\<exists>q. planner w = Inr q
                \<and> (step st = ''ask_email_phone''
                    \<or> (step st = ''confirm_contact''
                        \<and> resolve_confirm (plan_extracted q) (strip u) = Some ''no'')))) \<longrightarrow>
        email (saved r) = email st \<and> phone (saved r) = phone st"
  proof
    assume n: "\<not> (tok \<and> (\<exists>q. planner w = Inr q
                \<and> (step st = ''ask_email_phone''
                    \<or> (step st = ''confirm_contact''
                        \<and> resolve_confirm (plan_extracted q) (strip u) = Some ''no''))))"
    show "email (saved r) = email st \<and> phone (saved r) = phone st"
    proof (cases "tok \<and> (\<exists>q. planner w = Inr q)")
      case False
      then have "\<not> tok \<or> (\<exists>e. planner w = Inl e)" by (cases "planner w") auto
      then show ?thesis
        unfolding r_def st_def using chat_stream_quiet [of tok w f cfg raw u] by simp
    next
      case True
      then obtain q where t: tok and q: "planner w = Inr q" by auto
      with n have 1: "step st \<noteq> ''ask_email_phone''"
        and 2: "\<not> (step st = ''confirm_contact''
                   \<and> resolve_confirm (plan_extracted q) (strip u) = Some ''no'')"
        by auto
      show ?thesis
        unfolding r_def
        using chat_stream_fields [OF t q, of f cfg raw u]
          step_machine_contact_frame [OF 1 2, of f cfg "plan_extracted q" "plan_notes q" "strip u"]
        unfolding st_def by simp
    qed
  qed
  from a b show ?thesis by (intro conjI)
qed

theorem contact_fields_written_on_flag_witness:
  "email (saved (chat_stream fromisoformat_seconds example_config
            (example_world
               (example_plan (no_extracted\<lparr>x_email := Some ''not an email'',
                  x_phone := Some '' +1 415 555 2671 '', phone_ok := True\<rparr>))
               (Inl []))
            (Some (BookingState_default\<lparr>email := Some ''john.doe@example.com''\<rparr>)) True ''hi''))
     = Some ''john.doe@example.com''
   \<and> phone (saved (chat_stream fromisoformat_seconds example_config
            (example_world
               (example_plan (no_extracted\<lparr>x_email := Some ''not an email'',
                  x_phone := Some '' +1 415 555 2671 '', phone_ok := True\<rparr>))
               (Inl []))
            (Some (BookingState_default\<lparr>email := Some ''john.doe@example.com''\<rparr>)) True ''hi''))
     = Some ''+1 415 555 2671''
   \<and> email (saved (chat_stream fromisoformat_seconds example_config
            (example_world
               (example_plan (no_extracted\<lparr>x_email := Some '' New@Example.COM '',
                  email_ok := True\<rparr>))
               (Inl []))
            (Some (BookingState_default\<lparr>email := Some ''john.doe@example.com''\<rparr>)) True ''hi''))
     = Some ''new@example.com''
   \<and> email (saved (chat_stream fromisoformat_seconds example_config
            (example_world (example_plan no_extracted) (Inl []))
            (Some example_contact) True ''yes''))
     = Some ''john.doe@example.com''"
proof -
  note a = contact_fields_written_on_flag
          [of True
              "example_world
                 (example_plan (no_extracted\<lparr>x_email := Some ''not an email'',
                    x_phone := Some '' +1 415 555 2671 '', phone_ok := True\<rparr>))
                 (Inl [])"
              "example_plan (no_extracted\<lparr>x_email := Some ''not an email'',
                    x_phone := Some '' +1 415 555 2671 '', phone_ok := True\<rparr>)"
              "Some (BookingState_default\<lparr>email := Some ''john.doe@example.com''\<rparr>)"
              fromisoformat_seconds example_config "''hi''"]
  note b = contact_fields_written_on_flag
          [of True
              "example_world
                 (example_plan (no_extracted\<lparr>x_email := Some '' New@Example.COM '',
                    email_ok := True\<rparr>))
                 (Inl [])"
              "example_plan (no_extracted\<lparr>x_email := Some '' New@Example.COM '',
                    email_ok := True\<rparr>)"
              "Some (BookingState_default\<lparr>email := Some ''john.doe@example.com''\<rparr>)"
              fromisoformat_seconds example_config "''hi''"]
  note c = contact_fields_written_on_flag
          [of True "example_world (example_plan no_extracted) (Inl [])"
              "example_plan no_extracted" "Some example_contact"
              fromisoformat_seconds example_config "''yes''"]
  have s1: "strip '' +1 415 555 2671 '' = ''+1 415 555 2671''" by code_simp
  have s2: "lower (strip '' New@Example.COM '') = ''new@example.com''" by code_simp
  have s3: "strip '' New@Example.COM '' \<noteq> []" by code_simp
  have t1: "truthy (Some '' +1 415 555 2671 '')" by (simp add: truthy_def)
  have t2: "truthy (Some '' New@Example.COM '')" by (simp add: truthy_def)
  have rc: "resolve_confirm (plan_extracted (example_plan no_extracted)) (strip ''yes'')
            = Some ''yes''"
    by code_simp
  have 1: "email (saved (chat_stream fromisoformat_seconds example_config
            (example_world
               (example_plan (no_extracted\<lparr>x_email := Some ''not an email'',
                  x_phone := Some '' +1 415 555 2671 '', phone_ok := True\<rparr>))
               (Inl []))
            (Some (BookingState_default\<lparr>email := Some ''john.doe@example.com''\<rparr>)) True ''hi''))
     = Some ''john.doe@example.com''
   \<and> phone (saved (chat_stream fromisoformat_seconds example_config
            (example_world
               (example_plan (no_extracted\<lparr>x_email := Some ''not an email'',
                  x_phone := Some '' +1 415 555 2671 '', phone_ok := True\<rparr>))
               (Inl []))
            (Some (BookingState_default\<lparr>email := Some ''john.doe@example.com''\<rparr>)) True ''hi''))
     = Some ''+1 415 555 2671''"
    using a s1 t1
    by (simp add: example_world_def example_plan_def plan_extracted_def no_extracted_def
        load_state_def BookingState_default_def str_of_def)
  have 2: "email (saved (chat_stream fromisoformat_seconds example_config
            (example_world
               (example_plan (no_extracted\<lparr>x_email := Some '' New@Example.COM '',
                  email_ok := True\<rparr>))
               (Inl []))
            (Some (BookingState_default\<lparr>email := Some ''john.doe@example.com''\<rparr>)) True ''hi''))
     = Some ''new@example.com''"
    using b s2 s3 t2
    by (simp add: example_world_def example_plan_def plan_extracted_def no_extracted_def
        load_state_def BookingState_default_def str_of_def)
  have 3: "email (saved (chat_stream fromisoformat_seconds example_config
            (example_world (example_plan no_extracted) (Inl []))
            (Some example_contact) True ''yes''))
     = Some ''john.doe@example.com''"
    using c rc
    by (simp add: example_world_def example_contact_def load_state_def)
  from 1 2 3 show ?thesis by simp
qed

theorem valid_email_not_written_counterexample:
  "step (example_contact\<lparr>step := ''ask_time''\<rparr>) = ''ask_time''
   \<and> email_ok (plan_extracted (example_plan
        (no_extracted\<lparr>x_email := Some ''new@example.com'', email_ok := True\<rparr>)))
   \<and> x_email (plan_extracted (example_plan
        (no_extracted\<lparr>x_email := Some ''new@example.com'', email_ok := True\<rparr>)))
       = Some ''new@example.com''
   \<and> email (saved (chat_stream fromisoformat_seconds example_config
              (example_world
                 (example_plan (no_extracted\<lparr>x_email := Some ''new@example.com'',
                    email_ok := True\<rparr>))
                 (Inl []))
              (Some (example_contact\<lparr>step := ''ask_time''\<rparr>)) True
              ''my email is new@example.com''))
       = Some ''john.doe@example.com''"
proof -
  have t: True ..
  have q: "planner (example_world
                 (example_plan (no_extracted\<lparr>x_email := Some ''new@example.com'',
                    email_ok := True\<rparr>))
                 (Inl []))
           = Inr (example_plan (no_extracted\<lparr>x_email := Some ''new@example.com'',
                    email_ok := True\<rparr>))"
    by (simp add: example_world_def)
  have l: "load_state (Some (example_contact\<lparr>step := ''ask_time''\<rparr>))
           = example_contact\<lparr>step := ''ask_time''\<rparr>"
    by (simp add: load_state_def)
  have s: "step (example_contact\<lparr>step := ''ask_time''\<rparr>) = ''ask_time''" by simp
  have n1: "step (example_contact\<lparr>step := ''ask_time''\<rparr>) \<noteq> ''ask_email_phone''" by simp
  have n2: "\<not> (step (example_contact\<lparr>step := ''ask_time''\<rparr>) = ''confirm_contact''
               \<and> c = Some ''no'')" for c
    by simp
  have e: "email (fst (step_machine f cfg (example_contact\<lparr>step := ''ask_time''\<rparr>) ex nts c u))
           = Some ''john.doe@example.com''" for f cfg ex nts c u
    using step_machine_contact_frame [OF n1 n2]
    by (simp add: example_contact_def)
  have "email (saved (chat_stream fromisoformat_seconds example_config
              (example_world
                 (example_plan (no_extracted\<lparr>x_email := Some ''new@example.com'',
                    email_ok := True\<rparr>))
                 (Inl []))
              (Some (example_contact\<lparr>step := ''ask_time''\<rparr>)) True
              ''my email is new@example.com''))
       = Some ''john.doe@example.com''"
    using chat_stream_fields [OF t q, of fromisoformat_seconds example_config
            "Some (example_contact\<lparr>step := ''ask_time''\<rparr>)" "''my email is new@example.com''"]
    unfolding l e by simp
  then show ?thesis
    by (simp add: example_plan_def plan_extracted_def no_extracted_def)
qed

lemma truthy_Some: "truthy x \<Longrightarrow> x = Some (str_of x)"
  by (cases x) (simp_all add: truthy_def str_of_def)

lemma step_machine_start_iso_checked:
  assumes "start_iso_checked f st"
  shows "start_iso_checked f (fst (step_machine f cfg st ex nts c u))"
proof (cases st rule: step_cases)
  case 1
  with assms show ?thesis
    by (cases "email_ok ex \<and> truthy (x_email ex)"; cases "phone_ok ex \<and> truthy (x_phone ex)")
       (simp_all add: step_machine_ask_email_phone Let_def start_iso_checked_def)
next
  case 2
  with assms show ?thesis
    by (simp add: step_machine_confirm_contact start_iso_checked_def BookingState_default_def)
next
  case 3
  show ?thesis
  proof (cases "start_ok ex \<and> truthy (x_start_iso ex)
                \<and> parse_iso_datetime f (str_of (x_start_iso ex)) \<noteq> None")
    case True
    then have "x_start_iso ex = Some (str_of (x_start_iso ex))" by (simp add: truthy_Some)
    then have "case x_start_iso ex of None \<Rightarrow> True
               | Some s \<Rightarrow> parse_iso_datetime f s \<noteq> None"
      using True by (cases "x_start_iso ex") (simp_all add: str_of_def)
    with 3 True show ?thesis by (simp add: step_machine_ask_time start_iso_checked_def)
  next
    case False
    have "fst (step_machine f cfg st ex nts c u) = st"
      by (simp only: step_machine_ask_time [OF 3] if_not_P [OF False])
    with assms show ?thesis by simp
  qed
next
  case 4
  with assms show ?thesis by (simp add: step_machine_ask_title start_iso_checked_def)
next
  case 5
  with assms show ?thesis by (simp add: step_machine_confirm_all start_iso_checked_def)
next
  case 6
  with assms show ?thesis by (simp add: step_machine_done)
next
  case 7
  with assms show ?thesis by (simp add: step_machine_other)
qed

lemma chat_stream_start_iso_checked:
  assumes "start_iso_checked f (load_state raw)"
  shows "start_iso_checked f (saved (chat_stream f cfg w raw tok u))"
proof (cases "tok \<and> (\<exists>q. planner w = Inr q)")
  case False
  then have "\<not> tok \<or> (\<exists>e. planner w = Inl e)" by (cases "planner w") auto
  then show ?thesis using assms chat_stream_quiet [of tok w f cfg raw u] by simp
next
  case True
  then obtain q where t: tok and q: "planner w = Inr q" by auto
  have "start_iso (saved (chat_stream f cfg w raw tok u))
          = start_iso (fst (step_machine f cfg (load_state raw) (plan_extracted q) (plan_notes q)
                     (resolve_confirm (plan_extracted q) (strip u)) (strip u)))"
    using chat_stream_fields [OF t q] by simp
  then show ?thesis
    using step_machine_start_iso_checked [OF assms, of cfg "plan_extracted q" "plan_notes q"
        "resolve_confirm (plan_extracted q) (strip u)" "strip u"]
    by (simp add: start_iso_checked_def)
qed

lemma agent_fields_valid_default: "agent_fields_valid AgentBookingState_default"
  by (simp add: agent_fields_valid_def AgentBookingState_default_def)

lemma agent_step_cases:
  obtains "a_step st = Some ''ask_email''" | "a_step st = Some ''ask_phone''"
    | "a_step st = Some ''confirm''" | "a_step st = Some ''done''"
    | "a_step st \<noteq> Some ''ask_email''" "a_step st \<noteq> Some ''ask_phone''"
      "a_step st \<noteq> Some ''confirm''" "a_step st \<noteq> Some ''done''"
  by blast

lemma handle_user_message_fields_valid:
  assumes "agent_fields_valid st"
  shows "agent_fields_valid (state (handle_user_message st u))"
proof (cases st rule: agent_step_cases)
  case 1
  show ?thesis
  proof (cases "is_valid_email u")
    case True
    with 1 assms show ?thesis
      by (simp add: handle_user_message_ask_email agent_fields_valid_def is_valid_email_normal)
  next
    case False
    with 1 assms show ?thesis
      by (simp add: handle_user_message_def Let_def is_valid_email_strip)
  qed
next
  case 2
  show ?thesis
  proof (cases "is_valid_phone u")
    case True
    with 2 assms show ?thesis
      by (simp add: handle_user_message_ask_phone agent_fields_valid_def is_valid_phone_normalize)
  next
    case False
    with 2 assms show ?thesis
      by (simp add: handle_user_message_def Let_def is_valid_phone_strip)
  qed
next
  case 3
  with assms show ?thesis
    by (cases "parse_yes_no (strip u)")
       (simp_all add: handle_user_message_def Let_def agent_fields_valid_def
          AgentBookingState_default_def split: bool.splits)
next
  case 4
  with assms show ?thesis by (simp add: handle_user_message_done)
next
  case 5
  with assms show ?thesis by (simp add: handle_user_message_def Let_def)
qed

text \<open>
  C4, as the code has it. In \<^verbatim>\<open>chat.py\<close> a start time is held only if
  \<^verbatim>\<open>_parse_iso_datetime\<close> reads it, from the default state on and through every
  request, while an email or a phone that the planner marked valid is stored as the
  planner gave it, trimmed, with no check of the engine. In \<^verbatim>\<open>agent_state.py\<close> the email
  and the phone held pass \<^verbatim>\<open>is_valid_email\<close> and \<^verbatim>\<open>is_valid_phone\<close>, from the default
  state on and through every message.
\<close>

theorem stored_fields_validated:
  "start_iso_checked f BookingState_default
   \<and> (start_iso_checked f (load_state raw) \<longrightarrow>
        start_iso_checked f (saved (chat_stream f cfg w raw tok u)))
   \<and> (tok \<and> planner w = Inr p \<and> step (load_state raw) = ''ask_email_phone'' \<longrightarrow>
        (email_ok (plan_extracted p) \<and> truthy (x_email (plan_extracted p)) \<longrightarrow>
           email (saved (chat_stream f cfg w raw tok u))
             = Some (lower (strip (str_of (x_email (plan_extracted p))))))
        \<and> (phone_ok (plan_extracted p) \<and> truthy (x_phone (plan_extracted p)) \<longrightarrow>
           phone (saved (chat_stream f cfg w raw tok u))
             = Some (take 40 (strip (str_of (x_phone (plan_extracted p)))))))
   \<and> agent_fields_valid AgentBookingState_default
   \<and> (agent_fields_valid st \<longrightarrow> agent_fields_valid (state (handle_user_message st v)))"
proof -
  have a: "start_iso_checked f BookingState_default"
    by (simp add: start_iso_checked_def BookingState_default_def)
  have b: "start_iso_checked f (load_state raw) \<longrightarrow>
        start_iso_checked f (saved (chat_stream f cfg w raw tok u))"
    by (simp add: chat_stream_start_iso_checked)
  have c: "tok \<and> planner w = Inr p \<and> step (load_state raw) = ''ask_email_phone'' \<longrightarrow>
        (email_ok (plan_extracted p) \<and> truthy (x_email (plan_extracted p)) \<longrightarrow>
           email (saved (chat_stream f cfg w raw tok u))
             = Some (lower (strip (str_of (x_email (plan_extracted p))))))
        \<and> (phone_ok (plan_extracted p) \<and> truthy (x_phone (plan_extracted p)) \<longrightarrow>
           phone (saved (chat_stream f cfg w raw tok u))
             = Some (take 40 (strip (str_of (x_phone (plan_extracted p))))))"
  proof
    assume "tok \<and> planner w = Inr p \<and> step (load_state raw) = ''ask_email_phone''"
    then have t: tok and q: "planner w = Inr p" and s: "step (load_state raw) = ''ask_email_phone''"
      by simp_all
    show "(email_ok (plan_extracted p) \<and> truthy (x_email (plan_extracted p)) \<longrightarrow>
           email (saved (chat_stream f cfg w raw tok u))
             = Some (lower (strip (str_of (x_email (plan_extracted p))))))
        \<and> (phone_ok (plan_extracted p) \<and> truthy (x_phone (plan_extracted p)) \<longrightarrow>
           phone (saved (chat_stream f cfg w raw tok u))
             = Some (take 40 (strip (str_of (x_phone (plan_extracted p))))))"
      using chat_stream_fields [OF t q, of f cfg raw u]
        step_machine_contact_write [OF s, of f cfg "plan_extracted p" "plan_notes p"
          "resolve_confirm (plan_extracted p) (strip u)" "strip u"]
      by simp
  qed
  have d: "agent_fields_valid AgentBookingState_default"
    by (rule agent_fields_valid_default)
  have e: "agent_fields_valid st \<longrightarrow> agent_fields_valid (state (handle_user_message st v))"
    by (simp add: handle_user_message_fields_valid)
  from a b c d e show ?thesis by (intro conjI)
qed

theorem stored_fields_validated_witness:
  "start_iso_checked fromisoformat_seconds
     (saved (chat_stream fromisoformat_seconds example_config
               (example_world (example_plan no_extracted) (Inr example_links))
               (Some example_booking) True ''yes''))
   \<and> agent_fields_valid
       (state (handle_user_message AgentBookingState_default '' John.Doe@Example.COM ''))
   \<and> email (saved (chat_stream fromisoformat_seconds example_config
              (example_world
                 (example_plan (no_extracted\<lparr>x_email := Some '' John.Doe@Example.COM '',
                                              email_ok := True\<rparr>))
                 (Inl []))
              None True ''my email is John.Doe@Example.COM''))
       = Some ''john.doe@example.com''"
proof -
  have i: "start_iso_checked fromisoformat_seconds (load_state (Some example_booking))"
    by code_simp
  have j: "agent_fields_valid AgentBookingState_default" by code_simp
  have k: "lower (strip '' John.Doe@Example.COM '') = ''john.doe@example.com''" by code_simp
  have l: "truthy (Some '' John.Doe@Example.COM '')" by (simp add: truthy_def)
  show ?thesis
    using stored_fields_validated
            [of fromisoformat_seconds "Some example_booking" example_config
                "example_world (example_plan no_extracted) (Inr example_links)" True "''yes''"
                "example_plan no_extracted" AgentBookingState_default "'' John.Doe@Example.COM ''"]
          stored_fields_validated
            [of fromisoformat_seconds None example_config
                "example_world
                   (example_plan (no_extracted\<lparr>x_email := Some '' John.Doe@Example.COM '',
                                                email_ok := True\<rparr>))
                   (Inl [])"
                True "''my email is John.Doe@Example.COM''"
                "example_plan (no_extracted\<lparr>x_email := Some '' John.Doe@Example.COM '',
                                             email_ok := True\<rparr>)"
                AgentBookingState_default "'' John.Doe@Example.COM ''"]
          i j k l
    by (simp add: example_world_def example_plan_def plan_extracted_def no_extracted_def
        load_state_def BookingState_default_def str_of_def)
qed

theorem unvalidated_email_counterexample:
  "email (saved (chat_stream fromisoformat_seconds example_config
            (example_world
               (example_plan (no_extracted\<lparr>x_email := Some ''not an email'', email_ok := True\<rparr>))
               (Inl []))
            None True ''hello'')) = Some ''not an email''
   \<and> \<not> is_valid_email ''not an email''"
proof -
  let ?ex = "no_extracted\<lparr>x_email := Some ''not an email'', email_ok := True\<rparr>"
  have s: "step (load_state None) = ''ask_email_phone''"
    by (simp add: load_state_def BookingState_default_def)
  have p: "planner (example_world (example_plan ?ex) (Inl [])) = Inr (example_plan ?ex)"
    by (simp add: example_world_def)
  have l: "lower (strip ''not an email'') = ''not an email''" by code_simp
  have n: "\<not> is_valid_email ''not an email''" by code_simp
  have "email (saved (chat_stream fromisoformat_seconds example_config
            (example_world (example_plan ?ex) (Inl [])) None True ''hello''))
          = Some ''not an email''"
    using chat_stream_fields [OF TrueI p, of fromisoformat_seconds example_config None "''hello''"]
      step_machine_contact_write [OF s, of fromisoformat_seconds example_config
        "plan_extracted (example_plan ?ex)" "plan_notes (example_plan ?ex)"
        "resolve_confirm (plan_extracted (example_plan ?ex)) (strip ''hello'')" "strip ''hello''"]
      l
    by (simp add: example_plan_def plan_extracted_def no_extracted_def truthy_def str_of_def)
  with n show ?thesis by simp
qed

lemma step_machine_ask_time_text:
  "step st = ''ask_time'' \<Longrightarrow>
   snd (step_machine f cfg st ex nts c u) =
     (if start_ok ex \<and> truthy (x_start_iso ex) then
        (if parse_iso_datetime f (str_of (x_start_iso ex)) = None
         then ''Sorry '' @ em_dash @ '' I couldn'' @ apostrophe
                @ ''t parse that time. Please try again (e.g., 'Feb 16 2pm').''
         else ''Optional: what'' @ apostrophe @ ''s the meeting title? You can say 'skip'.'')
      else ''Sorry, I couldn'' @ apostrophe @ ''t understand the date/time.\<newline>''
             @ ''Try: 'Feb 16 2pm' or 'next Monday 3pm'.\<newline>''
             @ ''(Details: '' @ py_or (time_reason nts) ''missing/ambiguous'' @ '')'')"
  by (cases "parse_iso_datetime f (str_of (x_start_iso ex))")
     (simp_all add: step_machine_def Let_def)

lemma not_due_unless_confirm_all: "step st2 \<noteq> ''confirm_all'' \<Longrightarrow> \<not> commit_due st2 c"
  by (simp add: commit_due_def)

lemma chat_stream_ask_time:
  assumes "step st = ''ask_time''" tok "planner w = Inr p"
  shows "saved (chat_stream f cfg w (Some st) tok u)
           = (if start_ok (plan_extracted p) \<and> truthy (x_start_iso (plan_extracted p))
                 \<and> parse_iso_datetime f (str_of (x_start_iso (plan_extracted p))) \<noteq> None
              then st\<lparr>start_iso := x_start_iso (plan_extracted p), step := ''ask_title''\<rparr>
              else st)"
proof -
  let ?c = "resolve_confirm (plan_extracted p) (strip u)"
  let ?st1 = "fst (step_machine f cfg st (plan_extracted p) (plan_notes p) ?c (strip u))"
  have 1: "?st1 = (if start_ok (plan_extracted p) \<and> truthy (x_start_iso (plan_extracted p))
                 \<and> parse_iso_datetime f (str_of (x_start_iso (plan_extracted p))) \<noteq> None
              then st\<lparr>start_iso := x_start_iso (plan_extracted p), step := ''ask_title''\<rparr>
              else st)"
    using assms(1) by (rule step_machine_ask_time)
  have "step ?st1 \<noteq> ''confirm_all''"
    unfolding 1 using assms(1) by simp
  then have "\<not> commit_due ?st1 ?c" by (rule not_due_unless_confirm_all)
  then have "saved (chat_stream f cfg w (Some st) tok u) = ?st1"
    using assms(2,3) by (simp add: chat_stream_saved load_state_def commit_stage_not_due)
  with 1 show ?thesis by simp
qed

lemma parse_iso_datetime_plain:
  "s \<noteq> [] \<Longrightarrow> strip s = [] \<or> last (strip s) \<noteq> CHR ''Z'' \<Longrightarrow>
   parse_iso_datetime f s = f (strip s)"
  by (auto simp: parse_iso_datetime_def Let_def)

text \<open>
  C6, as the code has it. At \<^verbatim>\<open>ask_time\<close> a start time is stored, and the step moves to
  \<^verbatim>\<open>ask_title\<close>, exactly when the planner marked it valid, it is not empty and
  \<^verbatim>\<open>_parse_iso_datetime\<close> reads it; otherwise the state stays as it was and the planned
  text asks again. \<^verbatim>\<open>_parse_iso_datetime\<close> asks for no offset of its own: on a text without
  a final Z it is the parser of the library on the trimmed text.
\<close>

theorem ask_time_accepts_what_parses:
  fixes f cfg w st tok u p
  defines "r \<equiv> chat_stream f cfg w (Some st) tok u"
    and "ex \<equiv> plan_extracted p"
  shows
  "(tok \<and> planner w = Inr p \<and> step st = ''ask_time'' \<longrightarrow>
      saved r = (if start_ok ex \<and> truthy (x_start_iso ex)
                    \<and> parse_iso_datetime f (str_of (x_start_iso ex)) \<noteq> None
                 then st\<lparr>start_iso := x_start_iso ex, step := ''ask_title''\<rparr> else st)
      \<and> (start_ok ex \<and> truthy (x_start_iso ex)
           \<and> parse_iso_datetime f (str_of (x_start_iso ex)) = None \<longrightarrow>
          planned r = ''Sorry '' @ em_dash @ '' I couldn'' @ apostrophe
                        @ ''t parse that time. Please try again (e.g., 'Feb 16 2pm').'')
      \<and> (\<not> (start_ok ex \<and> truthy (x_start_iso ex)) \<longrightarrow>
          planned r = ''Sorry, I couldn'' @ apostrophe @ ''t understand the date/time.\<newline>''
                        @ ''Try: 'Feb 16 2pm' or 'next Monday 3pm'.\<newline>''
                        @ ''(Details: '' @ py_or (time_reason (plan_notes p)) ''missing/ambiguous''
                        @ '')''))
   \<and> (s \<noteq> [] \<and> (strip s = [] \<or> last (strip s) \<noteq> CHR ''Z'') \<longrightarrow>
        parse_iso_datetime f s = f (strip s))"
proof -
  have a: "tok \<and> planner w = Inr p \<and> step st = ''ask_time'' \<longrightarrow>
      saved r = (if start_ok ex \<and> truthy (x_start_iso ex)
                    \<and> parse_iso_datetime f (str_of (x_start_iso ex)) \<noteq> None
                 then st\<lparr>start_iso := x_start_iso ex, step := ''ask_title''\<rparr> else st)
      \<and> (start_ok ex \<and> truthy (x_start_iso ex)
           \<and> parse_iso_datetime f (str_of (x_start_iso ex)) = None \<longrightarrow>
          planned r = ''Sorry '' @ em_dash @ '' I couldn'' @ apostrophe
                        @ ''t parse that time. Please try again (e.g., 'Feb 16 2pm').'')
      \<and> (\<not> (start_ok ex \<and> truthy (x_start_iso ex)) \<longrightarrow>
          planned r = ''Sorry, I couldn'' @ apostrophe @ ''t understand the date/time.\<newline>''
                        @ ''Try: 'Feb 16 2pm' or 'next Monday 3pm'.\<newline>''
                        @ ''(Details: '' @ py_or (time_reason (plan_notes p)) ''missing/ambiguous''
                        @ '')'')"
  proof
    assume "tok \<and> planner w = Inr p \<and> step st = ''ask_time''"
    then have t: tok and q: "planner w = Inr p" and s: "step st = ''ask_time''" by simp_all
    have 1: "saved r = (if start_ok ex \<and> truthy (x_start_iso ex)
                    \<and> parse_iso_datetime f (str_of (x_start_iso ex)) \<noteq> None
                 then st\<lparr>start_iso := x_start_iso ex, step := ''ask_title''\<rparr> else st)"
      unfolding r_def ex_def using s t q by (rule chat_stream_ask_time)
    have pl: "planned r = snd (step_machine f cfg st ex (plan_notes p)
                                 (resolve_confirm ex (strip u)) (strip u))"
      unfolding r_def ex_def using t q by (simp add: chat_stream_planned load_state_def)
    have 2: "start_ok ex \<and> truthy (x_start_iso ex)
           \<and> parse_iso_datetime f (str_of (x_start_iso ex)) = None \<longrightarrow>
          planned r = ''Sorry '' @ em_dash @ '' I couldn'' @ apostrophe
                        @ ''t parse that time. Please try again (e.g., 'Feb 16 2pm').''"
      unfolding pl by (simp add: step_machine_ask_time_text [OF s])
    have 3: "\<not> (start_ok ex \<and> truthy (x_start_iso ex)) \<longrightarrow>
          planned r = ''Sorry, I couldn'' @ apostrophe @ ''t understand the date/time.\<newline>''
                        @ ''Try: 'Feb 16 2pm' or 'next Monday 3pm'.\<newline>''
                        @ ''(Details: '' @ py_or (time_reason (plan_notes p)) ''missing/ambiguous''
                        @ '')''"
      unfolding pl by (simp add: step_machine_ask_time_text [OF s])
    from 1 2 3 show "saved r = (if start_ok ex \<and> truthy (x_start_iso ex)
                    \<and> parse_iso_datetime f (str_of (x_start_iso ex)) \<noteq> None
                 then st\<lparr>start_iso := x_start_iso ex, step := ''ask_title''\<rparr> else st)
      \<and> (start_ok ex \<and> truthy (x_start_iso ex)
           \<and> parse_iso_datetime f (str_of (x_start_iso ex)) = None \<longrightarrow>
          planned r = ''Sorry '' @ em_dash @ '' I couldn'' @ apostrophe
                        @ ''t parse that time. Please try again (e.g., 'Feb 16 2pm').'')
      \<and> (\<not> (start_ok ex \<and> truthy (x_start_iso ex)) \<longrightarrow>
          planned r = ''Sorry, I couldn'' @ apostrophe @ ''t understand the date/time.\<newline>''
                        @ ''Try: 'Feb 16 2pm' or 'next Monday 3pm'.\<newline>''
                        @ ''(Details: '' @ py_or (time_reason (plan_notes p)) ''missing/ambiguous''
                        @ '')'')"
      by (intro conjI)
  qed
  have b: "s \<noteq> [] \<and> (strip s = [] \<or> last (strip s) \<noteq> CHR ''Z'') \<longrightarrow>
        parse_iso_datetime f s = f (strip s)"
    by (simp add: parse_iso_datetime_plain)
  from a b show ?thesis by (intro conjI)
qed

theorem ask_time_accepts_what_parses_witness:
  "saved (chat_stream fromisoformat_seconds example_config
            (example_world
               (example_plan (no_extracted\<lparr>x_start_iso := Some ''next week'', start_ok := True\<rparr>))
               (Inl []))
            (Some (example_contact\<lparr>step := ''ask_time''\<rparr>)) True ''next week'')
     = example_contact\<lparr>step := ''ask_time''\<rparr>
   \<and> saved (chat_stream fromisoformat_seconds example_config
            (example_world
               (example_plan (no_extracted\<lparr>x_start_iso := Some ''2026-02-16T14:00:00-08:00'',
                                            start_ok := True\<rparr>))
               (Inl []))
            (Some (example_contact\<lparr>step := ''ask_time''\<rparr>)) True ''Feb 16 2pm'')
     = example_contact\<lparr>start_iso := Some ''2026-02-16T14:00:00-08:00'', step := ''ask_title''\<rparr>"
proof -
  have 1: "parse_iso_datetime fromisoformat_seconds ''next week'' = None" by code_simp
  have 2: "parse_iso_datetime fromisoformat_seconds ''2026-02-16T14:00:00-08:00'' \<noteq> None"
    by code_simp
  show ?thesis
    using ask_time_accepts_what_parses
            [of True
                "example_world
                   (example_plan (no_extracted\<lparr>x_start_iso := Some ''next week'', start_ok := True\<rparr>))
                   (Inl [])"
                "example_plan (no_extracted\<lparr>x_start_iso := Some ''next week'', start_ok := True\<rparr>)"
                "example_contact\<lparr>step := ''ask_time''\<rparr>" fromisoformat_seconds example_config
                "''next week''" "''x''"]
          ask_time_accepts_what_parses
            [of True
                "example_world
                   (example_plan (no_extracted\<lparr>x_start_iso := Some ''2026-02-16T14:00:00-08:00'',
                                                start_ok := True\<rparr>))
                   (Inl [])"
                "example_plan (no_extracted\<lparr>x_start_iso := Some ''2026-02-16T14:00:00-08:00'',
                                             start_ok := True\<rparr>)"
                "example_contact\<lparr>step := ''ask_time''\<rparr>" fromisoformat_seconds example_config
                "''Feb 16 2pm''" "''x''"]
          1 2
    by (simp add: example_world_def example_plan_def plan_extracted_def no_extracted_def
        truthy_def str_of_def)
qed

theorem bare_local_time_counterexample:
  "saved (chat_stream fromisoformat_seconds example_config
            (example_world
               (example_plan (no_extracted\<lparr>x_start_iso := Some ''2026-02-16T14:00:00'',
                                            start_ok := True\<rparr>))
               (Inl []))
            (Some (example_contact\<lparr>step := ''ask_time''\<rparr>)) True ''Feb 16 2pm'')
     = example_contact\<lparr>start_iso := Some ''2026-02-16T14:00:00'', step := ''ask_title''\<rparr>"
proof -
  let ?ex = "no_extracted\<lparr>x_start_iso := Some ''2026-02-16T14:00:00'', start_ok := True\<rparr>"
  have 1: "parse_iso_datetime fromisoformat_seconds ''2026-02-16T14:00:00''
             = Some \<lparr>year = 2026, month = 2, day = 16, hour = 14, minute = 0, second = 0,
                     utcoffset = None\<rparr>"
    by code_simp
  have 2: "planner (example_world (example_plan ?ex) (Inl [])) = Inr (example_plan ?ex)"
    by (simp add: example_world_def)
  have 3: "step (example_contact\<lparr>step := ''ask_time''\<rparr>) = ''ask_time''" by simp
  show ?thesis
    using chat_stream_ask_time [OF 3 TrueI 2, of fromisoformat_seconds example_config "''Feb 16 2pm''"] 1
    by (simp add: example_plan_def plan_extracted_def no_extracted_def truthy_def str_of_def)
qed

subsection \<open>The history of the voice front-end\<close>

lemma last20_length: "length (last20 h) = min 20 (length h)"
  by (simp add: last20_def min_def)

lemma last20_suffix: "suffix (last20 h) h"
  by (simp add: last20_def suffix_drop)

lemma last20_append_last20: "last20 (last20 xs @ [a]) = last20 (xs @ [a])"
proof (cases "length xs \<le> 20")
  case True
  then show ?thesis by (simp add: last20_def)
next
  case False
  then have l: "length xs - 20 + 20 = length xs" by simp
  have "last20 (last20 xs @ [a]) = drop 1 (drop (length xs - 20) xs @ [a])"
    using False by (simp add: last20_def)
  also have "\<dots> = drop (Suc (length xs - 20)) xs @ [a]"
    using False by simp
  also have "\<dots> = last20 (xs @ [a])"
  proof -
    have "Suc (length xs - 20) = length xs - 19" using False by arith
    then show ?thesis using False by (simp add: last20_def)
  qed
  finally show ?thesis .
qed

lemma voice_chat_stream_silent:
  "strip u = [] \<Longrightarrow> voice_chat_stream h u tok a bk = h"
  by (simp add: voice_chat_stream_def)

lemma voice_chat_stream_no_tokens:
  "strip u \<noteq> [] \<Longrightarrow> \<not> tok \<Longrightarrow>
   voice_chat_stream h u tok a bk
     = drop (Suc (length h) - 20) (h @ [\<lparr>role = ''user'', content = strip u\<rparr>])"
  by (simp add: voice_chat_stream_def Let_def append_message_def last20_def)

lemma voice_chat_stream_reply:
  assumes "strip u \<noteq> []" tok "\<not> (sublist ''CONFIRMED'' a \<and> bk)"
  shows "voice_chat_stream h u tok a bk
     = drop (length h + 2 - 20)
         (h @ [\<lparr>role = ''user'', content = strip u\<rparr>, \<lparr>role = ''assistant'', content = a\<rparr>])"
proof -
  let ?u = "\<lparr>role = ''user'', content = strip u\<rparr>"
  let ?a = "\<lparr>role = ''assistant'', content = a\<rparr>"
  have "voice_chat_stream h u tok a bk = last20 (last20 (h @ [?u]) @ [?a])"
    using assms by (auto simp: voice_chat_stream_def Let_def append_message_def)
  also have "\<dots> = last20 ((h @ [?u]) @ [?a])" by (rule last20_append_last20)
  also have "\<dots> = drop (length h + 2 - 20) (h @ [?u, ?a])" by (simp add: last20_def)
  finally show ?thesis .
qed

lemma voice_chat_stream_booked:
  "strip u \<noteq> [] \<Longrightarrow> tok \<Longrightarrow> sublist ''CONFIRMED'' a \<Longrightarrow> bk \<Longrightarrow>
   voice_chat_stream h u tok a bk = []"
  by (simp add: voice_chat_stream_def Let_def)

text \<open>
  C9. In the voice variant the history is a sliding window of at most 20 entries after
  every append: what is kept is the end of the list with the new entry appended, so the
  oldest entries are the ones dropped and the order of the kept ones is that of the
  list. A request of \<^verbatim>\<open>voice_chat_stream\<close> without text leaves the history as it is;
  one with a text leaves the last 20 entries of the history followed by the user's
  message, and by the assistant's when the session holds tokens; after a booking the
  history is empty.
\<close>

theorem voice_history_sliding_window:
  "length (append_message h r c) = min 20 (Suc (length h))
   \<and> suffix (append_message h r c) (h @ [\<lparr>role = r, content = c\<rparr>])
   \<and> append_message h r c
       = drop (Suc (length h) - 20) h @ [\<lparr>role = r, content = c\<rparr>]
   \<and> (length h \<le> 20 \<or> strip u \<noteq> [] \<longrightarrow> length (voice_chat_stream h u tok a bk) \<le> 20)
   \<and> (strip u = [] \<longrightarrow> voice_chat_stream h u tok a bk = h)
   \<and> (strip u \<noteq> [] \<and> \<not> tok \<longrightarrow>
        voice_chat_stream h u tok a bk
          = drop (Suc (length h) - 20) (h @ [\<lparr>role = ''user'', content = strip u\<rparr>]))
   \<and> (strip u \<noteq> [] \<and> tok \<and> \<not> (sublist ''CONFIRMED'' a \<and> bk) \<longrightarrow>
        voice_chat_stream h u tok a bk
          = drop (length h + 2 - 20)
              (h @ [\<lparr>role = ''user'', content = strip u\<rparr>,
                    \<lparr>role = ''assistant'', content = a\<rparr>]))
   \<and> (strip u \<noteq> [] \<and> tok \<and> sublist ''CONFIRMED'' a \<and> bk \<longrightarrow>
        voice_chat_stream h u tok a bk = [])"
proof -
  let ?m = "\<lparr>role = r, content = c\<rparr>"
  have len: "\<And>h r c. length (append_message h r c) \<le> 20"
    by (simp add: append_message_def last20_length)
  have a: "length (append_message h r c) = min 20 (Suc (length h))"
    by (simp add: append_message_def last20_length)
  have b: "suffix (append_message h r c) (h @ [?m])"
    unfolding append_message_def by (rule last20_suffix)
  have c: "append_message h r c = drop (Suc (length h) - 20) h @ [?m]"
    by (simp add: append_message_def last20_def)
  have d: "length h \<le> 20 \<or> strip u \<noteq> [] \<longrightarrow> length (voice_chat_stream h u tok a bk) \<le> 20"
  proof (cases "strip u = []")
    case True
    then show ?thesis by (simp add: voice_chat_stream_def)
  next
    case False
    then show ?thesis using len by (simp add: voice_chat_stream_def Let_def)
  qed
  have e: "strip u = [] \<longrightarrow> voice_chat_stream h u tok a bk = h"
    by (simp add: voice_chat_stream_silent)
  have f: "strip u \<noteq> [] \<and> \<not> tok \<longrightarrow>
        voice_chat_stream h u tok a bk
          = drop (Suc (length h) - 20) (h @ [\<lparr>role = ''user'', content = strip u\<rparr>])"
    using voice_chat_stream_no_tokens [of u tok h a bk] by simp
  have g: "strip u \<noteq> [] \<and> tok \<and> \<not> (sublist ''CONFIRMED'' a \<and> bk) \<longrightarrow>
        voice_chat_stream h u tok a bk
          = drop (length h + 2 - 20)
              (h @ [\<lparr>role = ''user'', content = strip u\<rparr>,
                    \<lparr>role = ''assistant'', content = a\<rparr>])"
    using voice_chat_stream_reply [of u tok a bk h] by simp
  have i: "strip u \<noteq> [] \<and> tok \<and> sublist ''CONFIRMED'' a \<and> bk \<longrightarrow>
        voice_chat_stream h u tok a bk = []"
    using voice_chat_stream_booked [of u tok a bk h] by simp
  from a b c d e f g i show ?thesis by (intro conjI)
qed

theorem voice_history_sliding_window_witness:
  "voice_chat_stream
      (map (\<lambda>n. \<lparr>role = ''user'', content = replicate n CHR ''a''\<rparr>) [1..<21])
      '' hi '' True ''hello'' False
     = map (\<lambda>n. \<lparr>role = ''user'', content = replicate n CHR ''a''\<rparr>) [3..<21]
       @ [\<lparr>role = ''user'', content = ''hi''\<rparr>, \<lparr>role = ''assistant'', content = ''hello''\<rparr>]
   \<and> append_message
        (map (\<lambda>n. \<lparr>role = ''user'', content = replicate n CHR ''a''\<rparr>) [1..<21])
        ''assistant'' ''b''
     = map (\<lambda>n. \<lparr>role = ''user'', content = replicate n CHR ''a''\<rparr>) [2..<21]
       @ [\<lparr>role = ''assistant'', content = ''b''\<rparr>]"
proof -
  let ?h = "map (\<lambda>n. \<lparr>role = ''user'', content = replicate n CHR ''a''\<rparr>) [1..<21]"
  have s: "strip '' hi '' = ''hi''" by code_simp
  have n: "\<not> sublist ''CONFIRMED'' ''hello''" by code_simp
  have l: "length ?h = 20" by simp
  have d2: "drop 2 ?h = map (\<lambda>n. \<lparr>role = ''user'', content = replicate n CHR ''a''\<rparr>) [3..<21]"
    by code_simp
  have d1: "drop 1 ?h = map (\<lambda>n. \<lparr>role = ''user'', content = replicate n CHR ''a''\<rparr>) [2..<21]"
    by code_simp
  show ?thesis
    using voice_history_sliding_window [of ?h "''assistant''" "''b''" "'' hi ''" True "''hello''" False]
      s n l d1 d2
    by (simp del: upt_conv_Cons upt_Suc)
qed

end
